theory Spec2Isabelle
  imports Complex_Main "HOL-Library.Char_ord" "HOL-Library.List_Lexorder"
    "HOL-Library.Product_Lexorder" "HOL-Library.Multiset"
begin

section \<open>Python strings\<close>

text \<open>
  The aggregator script \<^verbatim>\<open>ichorCNA_results_summary.py\<close> works on file names and on the
  lines of parameter files with five methods of Python's \<^verbatim>\<open>str\<close>: \<^verbatim>\<open>endswith\<close>,
  the substring test \<^verbatim>\<open>in\<close>, \<^verbatim>\<open>split\<close>, \<^verbatim>\<open>strip\<close> and \<^verbatim>\<open>replace\<close>.
  A string is a list of characters; a character stands for a code point below 256.
\<close>

fun startswith :: "string \<Rightarrow> string \<Rightarrow> bool" where
  "startswith s [] = True"
| "startswith [] (p # ps) = False"
| "startswith (c # cs) (p # ps) = (c = p \<and> startswith cs ps)"

definition endswith :: "string \<Rightarrow> string \<Rightarrow> bool" where
  "endswith s suffix = startswith (rev s) (rev suffix)"

text \<open>\<^verbatim>\<open>sub in s\<close>: \<open>sub\<close> occurs in \<open>s\<close> as a contiguous block.\<close>

fun contains :: "string \<Rightarrow> string \<Rightarrow> bool" where
  "contains sub [] = (sub = [])"
| "contains sub (c # cs) = (startswith (c # cs) sub \<or> contains sub cs)"

text \<open>\<^verbatim>\<open>s.split(sep)\<close> for a separator of one character: never an empty list.\<close>

fun split :: "char \<Rightarrow> string \<Rightarrow> string list" where
  "split sep [] = [[]]"
| "split sep (c # cs) =
     (if c = sep then [] # split sep cs
      else (case split sep cs of [] \<Rightarrow> [[c]] | w # ws \<Rightarrow> (c # w) # ws))"

text \<open>
  \<^verbatim>\<open>str.isspace\<close> on one character, for the code points below 256: tab to carriage
  return, the four separators 0x1c to 0x1f, space, NEL and the no-break space.
\<close>

definition isspace :: "char \<Rightarrow> bool" where
  "isspace c = ((of_char c :: nat) \<in> {9, 10, 11, 12, 13, 28, 29, 30, 31, 32, 133, 160})"

definition strip :: "string \<Rightarrow> string" where
  "strip s = rev (dropWhile isspace (rev (dropWhile isspace s)))"

text \<open>
  \<^verbatim>\<open>s.replace(old, new)\<close>: the occurrences of \<open>old\<close> are found from the left and do not
  overlap. For an empty \<open>old\<close> Python puts \<open>new\<close> before every character and at the end.
\<close>

function replace :: "string \<Rightarrow> string \<Rightarrow> string \<Rightarrow> string" where
  "replace old new s =
     (if old = [] then new @ concat (map (\<lambda>c. c # new) s)
      else (case s of
              [] \<Rightarrow> []
            | c # cs \<Rightarrow>
                if startswith s old then new @ replace old new (drop (length old) s)
                else c # replace old new cs))"
  by pat_completeness auto
termination
  by (relation "measure (\<lambda>(old, new, s). length s)") auto

declare replace.simps [simp del]


section \<open>Errors, the standard output and the results directory\<close>

text \<open>
  The exceptions the script can meet. None of them is caught anywhere in the script: an
  exception ends the invocation.
\<close>

datatype error =
    IndexError          \<comment> \<open>a list index out of range\<close>
  | ValueError          \<comment> \<open>\<^verbatim>\<open>float\<close> of a text that is no number; \<^verbatim>\<open>pivot\<close> on duplicate entries\<close>
  | KeyError            \<comment> \<open>a column that the data frame does not have\<close>
  | IsADirectoryError   \<comment> \<open>\<^verbatim>\<open>open\<close> of a directory\<close>
  | ParserError         \<comment> \<open>\<^verbatim>\<open>pd.read_csv\<close> cannot read the file\<close>
  | SystemExit          \<comment> \<open>\<^verbatim>\<open>parser.error\<close>\<close>

text \<open>
  A data frame read from a segmentation file by \<^verbatim>\<open>pd.read_csv(path, sep="\t")\<close>: the
  column names of the header and the data rows. The columns \<^verbatim>\<open>chr\<close>, \<^verbatim>\<open>start\<close> and
  \<^verbatim>\<open>end\<close> are taken as text, integer and integer, the types pandas gives them when a
  chromosome is named \<^verbatim>\<open>chr1\<close> or \<^verbatim>\<open>X\<close>; every other column holds log-ratio values of
  a type \<open>'v\<close> that the script never inspects (a float, \<^verbatim>\<open>NaN\<close> included). A field of
  a row is meaningful only when \<open>columns\<close> names it. A file whose \<^verbatim>\<open>chr\<close> column is all
  digits is read as integers and sorted as numbers; the order of such chromosomes is
  outside this model, and no statement below is about the order of a segmentation table.
\<close>

record 'v seg_line =
  r_chr :: string
  r_start :: int
  r_end :: int
  r_cell :: "string \<Rightarrow> 'v"

record 'v frame =
  columns :: "string list"
  lines :: "'v seg_line list"

text \<open>
  An entry of a directory listing: a directory with its own listing (in the order
  \<^verbatim>\<open>os.listdir\<close> gives it), or a regular file. A file is given by what the script can read
  from it: its text lines, and the outcome of \<^verbatim>\<open>pd.read_csv\<close> on it (\<open>None\<close> when
  \<^verbatim>\<open>read_csv\<close> raises).
\<close>

datatype 'v node =
    Dir "(string \<times> 'v node) list"
  | File "string list" "'v frame option"

type_synonym 'v listing = "(string \<times> 'v node) list"

fun isdir :: "'v node \<Rightarrow> bool" where
  "isdir (Dir _) = True"
| "isdir (File _ _) = False"

fun isfile :: "'v node \<Rightarrow> bool" where
  "isfile (Dir _) = False"
| "isfile (File _ _) = True"

text \<open>\<^verbatim>\<open>open(path, "r")\<close> followed by the iteration over the lines.\<close>

fun open_lines :: "'v node \<Rightarrow> error + string list" where
  "open_lines (Dir _) = Inl IsADirectoryError"
| "open_lines (File ls _) = Inr ls"

text \<open>\<^verbatim>\<open>os.path.join(a, b)\<close> on POSIX.\<close>

definition join :: "string \<Rightarrow> string \<Rightarrow> string" where
  "join a b =
     (if startswith b ''/'' then b
      else if a = [] \<or> endswith a ''/'' then a @ b
      else a @ ''/'' @ b)"

text \<open>
  The loop \<^verbatim>\<open>for file_name in os.listdir(sample_path): if file_name.endswith(suffix): ...; break\<close>
  that \<^verbatim>\<open>extract_tf_data\<close>, \<^verbatim>\<open>create_params_zip\<close> and \<^verbatim>\<open>create_cna_seg_zip\<close> each
  contain: the first entry of the listing whose name ends with the suffix, if there is one.
\<close>

fun first_match :: "string \<Rightarrow> 'v listing \<Rightarrow> (string \<times> 'v node) option" where
  "first_match suffix [] = None"
| "first_match suffix ((file_name, nd) # rest) =
     (if endswith file_name suffix then Some (file_name, nd) else first_match suffix rest)"

section \<open>Parameter extraction: \<^verbatim>\<open>extract_tf_data\<close>\<close>

text \<open>
  A value of a parameter table: a text, a float, or \<^verbatim>\<open>np.nan\<close>. The floats are of a
  type \<open>'f\<close>, and Python's \<^verbatim>\<open>float(text)\<close> is a parameter \<open>pf\<close> of the model, with
  \<open>None\<close> where it raises \<^verbatim>\<open>ValueError\<close>.
\<close>

datatype 'f pyval = Str string | Float 'f | NaN

text \<open>
  The dictionary \<^verbatim>\<open>data\<close> of one sample: \<^verbatim>\<open>library\<close> is set when it is created, each of the
  other five keys is absent (\<open>None\<close>) until a line sets it.
\<close>

record 'f data =
  d_library :: string
  d_tumor_fraction :: "'f pyval option"
  d_ploidy :: "'f pyval option"
  d_gender :: "'f pyval option"
  d_ChrY_coverage_fraction :: "'f pyval option"
  d_ChrX_median_log_ratio :: "'f pyval option"

definition new_data :: "string \<Rightarrow> 'f data" where
  "new_data sample_folder =
     \<lparr>d_library = sample_folder, d_tumor_fraction = None, d_ploidy = None, d_gender = None,
      d_ChrY_coverage_fraction = None, d_ChrX_median_log_ratio = None\<rparr>"

text \<open>\<^verbatim>\<open>xs[1]\<close>.\<close>

fun index1 :: "'a list \<Rightarrow> error + 'a" where
  "index1 (x # y # ys) = Inr y"
| "index1 xs = Inl IndexError"

text \<open>\<^verbatim>\<open>line.split(":")[1].strip()\<close>.\<close>

definition field_value :: "string \<Rightarrow> error + string" where
  "field_value line =
     (case index1 (split CHR '':'' line) of Inl e \<Rightarrow> Inl e | Inr v \<Rightarrow> Inr (strip v))"

text \<open>\<^verbatim>\<open>float(value) if value != 'NA' else np.nan\<close>.\<close>

definition to_float :: "(string \<Rightarrow> 'f option) \<Rightarrow> string \<Rightarrow> error + 'f pyval" where
  "to_float pf v =
     (if v \<noteq> ''NA'' then (case pf v of None \<Rightarrow> Inl ValueError | Some x \<Rightarrow> Inr (Float x))
      else Inr NaN)"

text \<open>The five labels, in the order of the \<^verbatim>\<open>if\<close>/\<^verbatim>\<open>elif\<close> chain.\<close>

datatype label = Gender | Tumor_Fraction | Ploidy | ChrY_coverage_fraction | ChrX_median_log_ratio

definition recognize :: "string \<Rightarrow> label option" where
  "recognize line =
     (if contains ''Gender:'' line then Some Gender
      else if contains ''Tumor Fraction:'' line then Some Tumor_Fraction
      else if contains ''Ploidy:'' line then Some Ploidy
      else if contains ''ChrY coverage fraction:'' line then Some ChrY_coverage_fraction
      else if contains ''ChrX median log ratio:'' line then Some ChrX_median_log_ratio
      else None)"

text \<open>The assignment \<^verbatim>\<open>data[key] = x\<close> of each branch, and the read of that key.\<close>

fun set_field :: "label \<Rightarrow> 'f pyval \<Rightarrow> 'f data \<Rightarrow> 'f data" where
  "set_field Gender x d = d\<lparr>d_gender := Some x\<rparr>"
| "set_field Tumor_Fraction x d = d\<lparr>d_tumor_fraction := Some x\<rparr>"
| "set_field Ploidy x d = d\<lparr>d_ploidy := Some x\<rparr>"
| "set_field ChrY_coverage_fraction x d = d\<lparr>d_ChrY_coverage_fraction := Some x\<rparr>"
| "set_field ChrX_median_log_ratio x d = d\<lparr>d_ChrX_median_log_ratio := Some x\<rparr>"

fun get_field :: "label \<Rightarrow> 'f data \<Rightarrow> 'f pyval option" where
  "get_field Gender d = d_gender d"
| "get_field Tumor_Fraction d = d_tumor_fraction d"
| "get_field Ploidy d = d_ploidy d"
| "get_field ChrY_coverage_fraction d = d_ChrY_coverage_fraction d"
| "get_field ChrX_median_log_ratio d = d_ChrX_median_log_ratio d"

text \<open>
  The body of \<^verbatim>\<open>for line in file\<close>: the line is stripped, the first label of the chain
  that occurs anywhere in it selects the branch; the gender is kept as text, the other
  four values go through \<open>to_float\<close>. A line with no label changes nothing.
\<close>

definition parse_line :: "(string \<Rightarrow> 'f option) \<Rightarrow> 'f data \<Rightarrow> string \<Rightarrow> error + 'f data" where
  "parse_line pf d raw =
     (let line = strip raw in
      case recognize line of
        None \<Rightarrow> Inr d
      | Some Gender \<Rightarrow>
          (case field_value line of Inl e \<Rightarrow> Inl e | Inr v \<Rightarrow> Inr (set_field Gender (Str v) d))
      | Some lab \<Rightarrow>
          (case field_value line of
             Inl e \<Rightarrow> Inl e
           | Inr v \<Rightarrow> (case to_float pf v of Inl e \<Rightarrow> Inl e | Inr x \<Rightarrow> Inr (set_field lab x d))))"

fun parse_lines :: "(string \<Rightarrow> 'f option) \<Rightarrow> 'f data \<Rightarrow> string list \<Rightarrow> error + 'f data" where
  "parse_lines pf d [] = Inr d"
| "parse_lines pf d (l # ls) =
     (case parse_line pf d l of Inl e \<Rightarrow> Inl e | Inr d' \<Rightarrow> parse_lines pf d' ls)"

text \<open>
  A row of the table \<^verbatim>\<open>pd.DataFrame(data_list, columns=columns)\<close>: a key that a
  dictionary does not have becomes \<^verbatim>\<open>NaN\<close>.
\<close>

record 'f tf_row =
  library :: string
  tumor_fraction :: "'f pyval"
  ploidy :: "'f pyval"
  gender :: "'f pyval"
  ChrY_coverage_fraction_col :: "'f pyval"
  ChrX_median_log_ratio_col :: "'f pyval"

definition or_nan :: "'f pyval option \<Rightarrow> 'f pyval" where
  "or_nan x = (case x of None \<Rightarrow> NaN | Some v \<Rightarrow> v)"

definition to_row :: "'f data \<Rightarrow> 'f tf_row" where
  "to_row d =
     \<lparr>library = d_library d, tumor_fraction = or_nan (d_tumor_fraction d),
      ploidy = or_nan (d_ploidy d), gender = or_nan (d_gender d),
      ChrY_coverage_fraction_col = or_nan (d_ChrY_coverage_fraction d),
      ChrX_median_log_ratio_col = or_nan (d_ChrX_median_log_ratio d)\<rparr>"

text \<open>
  The loop over \<^verbatim>\<open>os.listdir(results_dir)\<close>. \<open>out\<close> is what has been printed so far,
  \<open>data_list\<close> the dictionaries collected so far. An entry that is no directory is passed
  over; a directory without a parameter file prints the diagnostic and is passed over
  (\<^verbatim>\<open>continue\<close>); an exception ends the loop, with what was printed before it.
\<close>

fun tf_loop ::
  "(string \<Rightarrow> 'f option) \<Rightarrow> 'v listing \<Rightarrow> string list \<Rightarrow> 'f data list
     \<Rightarrow> string list \<times> (error + 'f data list)" where
  "tf_loop pf [] out data_list = (out, Inr data_list)"
| "tf_loop pf ((sample_folder, nd) # rest) out data_list =
     (case nd of
        File _ _ \<Rightarrow> tf_loop pf rest out data_list
      | Dir entries \<Rightarrow>
          (case first_match ''.params.txt'' entries of
             None \<Rightarrow>
               tf_loop pf rest
                 (out @ [''No params.txt file found for sample: '' @ sample_folder]) data_list
           | Some (file_name, f) \<Rightarrow>
               (case open_lines f of
                  Inl e \<Rightarrow> (out, Inl e)
                | Inr ls \<Rightarrow>
                    (case parse_lines pf (new_data sample_folder) ls of
                       Inl e \<Rightarrow> (out, Inl e)
                     | Inr d \<Rightarrow> tf_loop pf rest out (data_list @ [d])))))"

text \<open>
  \<^verbatim>\<open>extract_tf_data(results_dir)\<close>: what it prints, and the table it returns, sorted by
  \<^verbatim>\<open>library\<close> (the order of Python's strings, which is the order of the code points).
\<close>

definition extract_tf_data ::
  "(string \<Rightarrow> 'f option) \<Rightarrow> 'v listing \<Rightarrow> string list \<times> (error + 'f tf_row list)" where
  "extract_tf_data pf results_dir =
     (case tf_loop pf results_dir [] [] of
        (out, Inl e) \<Rightarrow> (out, Inl e)
      | (out, Inr data_list) \<Rightarrow> (out, Inr (sort_key library (map to_row data_list))))"


section \<open>Segmentation extraction: \<^verbatim>\<open>extract_cna_data\<close>\<close>

text \<open>A row of the long-format table: \<^verbatim>\<open>[library, chr, start, end, <logR_column_choice>]\<close>.\<close>

record 'v long_row =
  seg_library :: string
  seg_chr :: string
  seg_start :: int
  seg_end :: int
  seg_value :: 'v

text \<open>
  The rows a file contributes: the columns \<^verbatim>\<open>chr\<close>, \<^verbatim>\<open>start\<close>, \<^verbatim>\<open>end\<close> and the
  library-prefixed column, the latter under the generic name, and the library on every row.
\<close>

definition tag_rows :: "string \<Rightarrow> string \<Rightarrow> 'v frame \<Rightarrow> 'v long_row list" where
  "tag_rows lib logR_column df =
     map (\<lambda>r. \<lparr>seg_library = lib, seg_chr = r_chr r, seg_start = r_start r, seg_end = r_end r,
               seg_value = r_cell r logR_column\<rparr>) (lines df)"

text \<open>
  The loop over the files of one sample directory. A name that does not end in
  \<^verbatim>\<open>.cna.seg\<close> and an entry that is no regular file are passed over. The library is
  \<^verbatim>\<open>file_name.replace(".cna.seg", "")\<close>. A file without the column
  \<^verbatim>\<open>f"{library}.{logR_column_choice}"\<close> is passed over; with it, \<^verbatim>\<open>df.loc[:, required_columns]\<close>
  raises \<^verbatim>\<open>KeyError\<close> unless \<^verbatim>\<open>chr\<close>, \<^verbatim>\<open>start\<close> and \<^verbatim>\<open>end\<close> are columns too.
\<close>

fun cna_files :: "string \<Rightarrow> 'v listing \<Rightarrow> 'v long_row list \<Rightarrow> error + 'v long_row list" where
  "cna_files choice [] data = Inr data"
| "cna_files choice ((file_name, nd) # rest) data =
     (if endswith file_name ''.cna.seg'' then
        (let lib = replace ''.cna.seg'' [] file_name in
         case nd of
           Dir _ \<Rightarrow> cna_files choice rest data
         | File _ None \<Rightarrow> Inl ParserError
         | File _ (Some df) \<Rightarrow>
             (let logR_column = lib @ ''.'' @ choice in
              if logR_column \<in> set (columns df) then
                (if ''chr'' \<in> set (columns df) \<and> ''start'' \<in> set (columns df)
                    \<and> ''end'' \<in> set (columns df)
                 then cna_files choice rest (data @ tag_rows lib logR_column df)
                 else Inl KeyError)
              else cna_files choice rest data))
      else cna_files choice rest data)"

text \<open>The loop over \<^verbatim>\<open>os.listdir(parent_directory)\<close>.\<close>

fun cna_loop :: "string \<Rightarrow> 'v listing \<Rightarrow> 'v long_row list \<Rightarrow> error + 'v long_row list" where
  "cna_loop choice [] data = Inr data"
| "cna_loop choice ((item, nd) # rest) data =
     (case nd of
        File _ _ \<Rightarrow> cna_loop choice rest data
      | Dir entries \<Rightarrow>
          (case cna_files choice entries data of
             Inl e \<Rightarrow> Inl e
           | Inr data' \<Rightarrow> cna_loop choice rest data'))"

definition sort_columns :: "'v long_row \<Rightarrow> string \<times> string \<times> int \<times> int" where
  "sort_columns r = (seg_library r, seg_chr r, seg_start r, seg_end r)"

text \<open>
  \<^verbatim>\<open>extract_cna_data(parent_directory, logR_column_choice)\<close>: what it prints and the table
  it returns, sorted by \<^verbatim>\<open>['library', 'chr', 'start', 'end']\<close>. The function has no
  \<^verbatim>\<open>print\<close>: it prints nothing on any path.
\<close>

definition extract_cna_data ::
  "'v listing \<Rightarrow> string \<Rightarrow> string list \<times> (error + 'v long_row list)" where
  "extract_cna_data parent_directory logR_column_choice =
     ([], case cna_loop logR_column_choice parent_directory [] of
            Inl e \<Rightarrow> Inl e
          | Inr data \<Rightarrow> Inr (sort_key sort_columns data))"

section \<open>Archives: \<^verbatim>\<open>create_params_zip\<close> and \<^verbatim>\<open>create_cna_seg_zip\<close>\<close>

text \<open>
  A member of an archive: the path it was read from and the name it is stored under.
  \<^verbatim>\<open>zipf.write(path, arcname=file_name)\<close> stores a regular file under \<open>file_name\<close>, and a
  directory as a directory member, whose name \<^verbatim>\<open>zipfile\<close> ends with a slash.
\<close>

record member =
  m_source :: string
  m_name :: string

definition zip_write :: "string \<Rightarrow> string \<Rightarrow> 'v node \<Rightarrow> member" where
  "zip_write path arcname nd =
     \<lparr>m_source = path, m_name = (if isdir nd then arcname @ ''/'' else arcname)\<rparr>"

text \<open>
  The two archive functions differ in the suffix and in the diagnostic only. For each
  directory of the listing the inner \<^verbatim>\<open>for\<close> loop writes the first matching entry and
  breaks; its \<^verbatim>\<open>else\<close> branch, taken when nothing matched, prints the diagnostic.
\<close>

fun zip_loop ::
  "string \<Rightarrow> string \<Rightarrow> string \<Rightarrow> 'v listing \<Rightarrow> string list \<Rightarrow> member list
     \<Rightarrow> string list \<times> member list" where
  "zip_loop suffix msg results_dir [] out zipf = (out, zipf)"
| "zip_loop suffix msg results_dir ((sample_folder, nd) # rest) out zipf =
     (case nd of
        File _ _ \<Rightarrow> zip_loop suffix msg results_dir rest out zipf
      | Dir entries \<Rightarrow>
          (case first_match suffix entries of
             Some (file_name, f) \<Rightarrow>
               zip_loop suffix msg results_dir rest out
                 (zipf @ [zip_write (join (join results_dir sample_folder) file_name) file_name f])
           | None \<Rightarrow>
               zip_loop suffix msg results_dir rest (out @ [msg @ sample_folder]) zipf))"

definition create_params_zip :: "string \<Rightarrow> 'v listing \<Rightarrow> string list \<times> member list" where
  "create_params_zip results_dir tree =
     zip_loop ''.params.txt'' ''No params.txt file found for sample: '' results_dir tree [] []"

definition create_cna_seg_zip :: "string \<Rightarrow> 'v listing \<Rightarrow> string list \<times> member list" where
  "create_cna_seg_zip results_dir tree =
     zip_loop ''.cna.seg'' ''No cna.seg file found for sample: '' results_dir tree [] []"

section \<open>The matrix: \<^verbatim>\<open>pivot\<close> and \<^verbatim>\<open>reset_index\<close>\<close>

text \<open>
  The wide table: the library columns, and one row per interval with one cell per library
  column. \<open>None\<close> is the cell pandas leaves empty (it shows as \<^verbatim>\<open>NaN\<close>).
\<close>

type_synonym interval = "string \<times> int \<times> int"

record 'v matrix =
  lib_columns :: "string list"
  m_rows :: "(interval \<times> 'v option list) list"

definition interval_of :: "'v long_row \<Rightarrow> interval" where
  "interval_of r = (seg_chr r, seg_start r, seg_end r)"

definition entry_key :: "'v long_row \<Rightarrow> interval \<times> string" where
  "entry_key r = (interval_of r, seg_library r)"

definition cell_of :: "'v long_row list \<Rightarrow> interval \<Rightarrow> string \<Rightarrow> 'v option" where
  "cell_of tbl iv lib =
     map_option seg_value (find (\<lambda>r. interval_of r = iv \<and> seg_library r = lib) tbl)"

text \<open>
  \<^verbatim>\<open>df.pivot(index=["chr", "start", "end"], columns="library", values=...)\<close>, as pandas
  documents it: \<^verbatim>\<open>ValueError\<close> when two rows have the same index and column; otherwise the
  index holds the intervals and the columns the libraries, each sorted and without
  repetition, and a cell holds the value of the row with that interval and library.
\<close>

definition pivot :: "'v long_row list \<Rightarrow> error + 'v matrix" where
  "pivot tbl =
     (if \<not> distinct (map entry_key tbl) then Inl ValueError
      else
        (let libs = sort (remdups (map seg_library tbl));
             ivs = sort (remdups (map interval_of tbl))
         in Inr \<lparr>lib_columns = libs,
                 m_rows = map (\<lambda>iv. (iv, map (cell_of tbl iv) libs)) ivs\<rparr>))"

text \<open>
  \<^verbatim>\<open>.reset_index()\<close> turns the index into the columns \<^verbatim>\<open>chr\<close>, \<^verbatim>\<open>start\<close> and \<^verbatim>\<open>end\<close>;
  pandas refuses to insert a column whose name is already there.
\<close>

definition reset_index :: "'v matrix \<Rightarrow> error + 'v matrix" where
  "reset_index m =
     (if ''chr'' \<in> set (lib_columns m) \<or> ''start'' \<in> set (lib_columns m)
         \<or> ''end'' \<in> set (lib_columns m)
      then Inl ValueError else Inr m)"

definition pivot_step :: "'v long_row list \<Rightarrow> error + 'v matrix" where
  "pivot_step tbl = (case pivot tbl of Inl e \<Rightarrow> Inl e | Inr m \<Rightarrow> reset_index m)"

text \<open>The cell of a matrix at an interval and a library column, when both exist.\<close>

definition matrix_cell :: "'v matrix \<Rightarrow> interval \<Rightarrow> string \<Rightarrow> 'v option option" where
  "matrix_cell m iv lib =
     (case map_of (m_rows m) iv of
        None \<Rightarrow> None
      | Some cells \<Rightarrow> map_of (zip (lib_columns m) cells) lib)"


section \<open>The invocation: \<^verbatim>\<open>main\<close>\<close>

text \<open>
  The arguments after \<^verbatim>\<open>parser.parse_args()\<close>. The results directory is given by its
  path and by its listing; the output directory is taken to lie outside of it.
  \<open>help_text\<close> is what \<^verbatim>\<open>parser.print_help()\<close> prints: \<^verbatim>\<open>argparse\<close> composes it from the
  usage, the description and the help of each argument, for the width of the terminal.
\<close>

record args =
  results_dir :: string
  output_dir :: string
  bam_name_pattern :: string
  create_zips :: bool
  help_text :: "string list"

text \<open>What the script writes into a file: a table, a matrix or an archive.\<close>

datatype ('f, 'v) content =
    TfTable "'f tf_row list"
  | LongTable "'v long_row list"
  | Matrix "'v matrix"
  | Zip "member list"

text \<open>
  The outcome of an invocation: the diagnostics printed, the files written, in order, and
  the exception that ended it, if one did.
\<close>

record ('f, 'v) run =
  printed :: "string list"
  written :: "(string \<times> ('f, 'v) content) list"
  raised :: "error option"

text \<open>\<^verbatim>\<open>.str.replace(args.bam_name_pattern, '', regex=False)\<close> on one identifier.\<close>

definition normalize :: "string \<Rightarrow> string \<Rightarrow> string" where
  "normalize pattern lib = replace pattern [] lib"

definition rename_tf :: "string \<Rightarrow> 'f tf_row list \<Rightarrow> 'f tf_row list" where
  "rename_tf pattern tbl = map (\<lambda>r. r\<lparr>library := normalize pattern (library r)\<rparr>) tbl"

definition rename_cna :: "string \<Rightarrow> 'v long_row list \<Rightarrow> 'v long_row list" where
  "rename_cna pattern tbl = map (\<lambda>r. r\<lparr>seg_library := normalize pattern (seg_library r)\<rparr>) tbl"

text \<open>
  Step 6, after the five tables are written: the two archives, when \<^verbatim>\<open>--create_zips\<close>
  is given.
\<close>

definition zip_step ::
  "args \<Rightarrow> 'v listing \<Rightarrow> string list \<Rightarrow> (string \<times> ('f, 'v) content) list \<Rightarrow> ('f, 'v) run" where
  "zip_step a tree out files =
     (if create_zips a then
        (case create_params_zip (results_dir a) tree of
           (out1, params) \<Rightarrow>
             (case create_cna_seg_zip (results_dir a) tree of
                (out2, segs) \<Rightarrow>
                  \<lparr>printed = out @ out1 @ out2,
                   written = files @ [(join (output_dir a) ''params.zip'', Zip params),
                                      (join (output_dir a) ''cna_seg.zip'', Zip segs)],
                   raised = None\<rparr>))
      else \<lparr>printed = out, written = files, raised = None\<rparr>)"

text \<open>
  Steps 4 and 5: both matrices are built before the first file is written, and an
  exception of \<^verbatim>\<open>pivot\<close> or \<^verbatim>\<open>reset_index\<close> ends the invocation there.
\<close>

definition write_step ::
  "args \<Rightarrow> 'v listing \<Rightarrow> string list \<Rightarrow> 'f tf_row list \<Rightarrow> 'v long_row list \<Rightarrow> 'v long_row list
     \<Rightarrow> ('f, 'v) run" where
  "write_step a tree out tf_data cna_data_logR cna_data_logR_Copy_Number =
     (case pivot_step cna_data_logR of
        Inl e \<Rightarrow> \<lparr>printed = out, written = [], raised = Some e\<rparr>
      | Inr cna_matrix_logR \<Rightarrow>
          (case pivot_step cna_data_logR_Copy_Number of
             Inl e \<Rightarrow> \<lparr>printed = out, written = [], raised = Some e\<rparr>
           | Inr cna_matrix_logR_Copy_Number \<Rightarrow>
               zip_step a tree out
                 [(join (output_dir a) ''tf.txt'', TfTable tf_data),
                  (join (output_dir a) ''cna_logR_long.txt'', LongTable cna_data_logR),
                  (join (output_dir a) ''cna_logR_Copy_Number_long.txt'',
                     LongTable cna_data_logR_Copy_Number),
                  (join (output_dir a) ''cna_logR_matrix.txt'', Matrix cna_matrix_logR),
                  (join (output_dir a) ''cna_logR_Copy_Number_matrix.txt'',
                     Matrix cna_matrix_logR_Copy_Number)]))"

text \<open>
  \<^verbatim>\<open>main()\<close> from the manual check of the required arguments on: an empty path prints
  the help and leaves through \<^verbatim>\<open>parser.error\<close>. The output directory
  is created first; it is no output file and \<open>written\<close> does not list it. Steps 1 to 3
  extract the three tables and rename the libraries; nothing is written before step 5.
\<close>

definition main :: "(string \<Rightarrow> 'f option) \<Rightarrow> args \<Rightarrow> 'v listing \<Rightarrow> ('f, 'v) run" where
  "main pf a tree =
     (if results_dir a = [] \<or> output_dir a = [] then
        \<lparr>printed = help_text a, written = [], raised = Some SystemExit\<rparr>
      else
        (case extract_tf_data pf tree of
           (out1, Inl e) \<Rightarrow> \<lparr>printed = out1, written = [], raised = Some e\<rparr>
         | (out1, Inr tf) \<Rightarrow>
             (case extract_cna_data tree ''logR'' of
                (out2, Inl e) \<Rightarrow> \<lparr>printed = out1 @ out2, written = [], raised = Some e\<rparr>
              | (out2, Inr logR) \<Rightarrow>
                  (case extract_cna_data tree ''logR_Copy_Number'' of
                     (out3, Inl e) \<Rightarrow>
                       \<lparr>printed = out1 @ out2 @ out3, written = [], raised = Some e\<rparr>
                   | (out3, Inr logR_Copy_Number) \<Rightarrow>
                       write_step a tree (out1 @ out2 @ out3)
                         (rename_tf (bam_name_pattern a) tf)
                         (rename_cna (bam_name_pattern a) logR)
                         (rename_cna (bam_name_pattern a) logR_Copy_Number)))))"

section \<open>Notions of the specification\<close>

text \<open>
  The specification derives the library of a segmentation file "by stripping the suffix
  from the file name": the name without its last \<open>length suffix\<close> characters.
\<close>

definition strip_suffix :: "string \<Rightarrow> string \<Rightarrow> string" where
  "strip_suffix suffix file_name =
     (if endswith file_name suffix then take (length file_name - length suffix) file_name
      else file_name)"

text \<open>
  "The value after the first colon" of a line, and the part of it that lies before the
  next colon.
\<close>

definition after_first_colon :: "string \<Rightarrow> string" where
  "after_first_colon line = drop 1 (dropWhile (\<lambda>c. c \<noteq> CHR '':'') line)"

definition up_to_next_colon :: "string \<Rightarrow> string" where
  "up_to_next_colon line = takeWhile (\<lambda>c. c \<noteq> CHR '':'') (after_first_colon line)"

text \<open>The column of a row of the parameter table that belongs to a label.\<close>

fun row_field :: "label \<Rightarrow> 'f tf_row \<Rightarrow> 'f pyval" where
  "row_field Gender r = gender r"
| "row_field Tumor_Fraction r = tumor_fraction r"
| "row_field Ploidy r = ploidy r"
| "row_field ChrY_coverage_fraction r = ChrY_coverage_fraction_col r"
| "row_field ChrX_median_log_ratio r = ChrX_median_log_ratio_col r"

text \<open>
  The segmentation files that count for a selector, in listing order, each with its
  library and its data frame: the regular files with a name ending in \<^verbatim>\<open>.cna.seg\<close> in a
  directory of the results directory, that \<^verbatim>\<open>read_csv\<close> reads, and whose header has the
  column of the library and the selector.
\<close>

definition seg_files_of :: "string \<Rightarrow> 'v listing \<Rightarrow> (string \<times> 'v frame) list" where
  "seg_files_of choice entries =
     List.map_filter
       (\<lambda>(file_name, nd).
          case nd of
            Dir _ \<Rightarrow> None
          | File _ None \<Rightarrow> None
          | File _ (Some df) \<Rightarrow>
              if endswith file_name ''.cna.seg''
                 \<and> replace ''.cna.seg'' [] file_name @ ''.'' @ choice \<in> set (columns df)
              then Some (replace ''.cna.seg'' [] file_name, df) else None)
       entries"

definition seg_files :: "string \<Rightarrow> 'v listing \<Rightarrow> (string \<times> 'v frame) list" where
  "seg_files choice tree =
     concat (map (\<lambda>(item, nd). case nd of Dir entries \<Rightarrow> seg_files_of choice entries
                                          | File _ _ \<Rightarrow> []) tree)"

definition rows_of :: "string \<Rightarrow> (string \<times> 'v frame) list \<Rightarrow> 'v long_row list" where
  "rows_of choice files =
     concat (map (\<lambda>(lib, df). tag_rows lib (lib @ ''.'' @ choice) df) files)"

text \<open>A directory holds a regular file whose name ends with the suffix.\<close>

fun holds_file :: "string \<Rightarrow> 'v node \<Rightarrow> bool" where
  "holds_file suffix (Dir entries) =
     list_ex (\<lambda>(file_name, f). isfile f \<and> endswith file_name suffix) entries"
| "holds_file suffix (File _ _) = False"

text \<open>
  The name of the first entry of a directory, in listing order, whose name ends with the
  suffix.
\<close>

fun first_name :: "string \<Rightarrow> 'v node \<Rightarrow> string option" where
  "first_name suffix (Dir entries) =
     map_option fst (find (\<lambda>(file_name, f). endswith file_name suffix) entries)"
| "first_name suffix (File _ _) = None"

text \<open>
  The first entry of a sample directory whose name ends with the suffix, if there is one,
  is a regular file.
\<close>

fun first_is_file :: "string \<Rightarrow> 'v node \<Rightarrow> bool" where
  "first_is_file suffix (Dir entries) =
     (case find (\<lambda>(file_name, f). endswith file_name suffix) entries of
        None \<Rightarrow> True
      | Some (file_name, f) \<Rightarrow> isfile f)"
| "first_is_file suffix (File _ _) = True"


section \<open>Inputs on which the extractions return a table\<close>

text \<open>
  No exception is caught in the script, so an extraction returns a table only when nothing
  raises. For the parameters: the first parameter file of each sample directory is a
  regular file, and \<^verbatim>\<open>float\<close> accepts every numeric value in it that is not \<^verbatim>\<open>NA\<close>.
  For the segments: \<^verbatim>\<open>read_csv\<close> reads every regular file named \<^verbatim>\<open>*.cna.seg\<close>, and a
  data frame with the column of the library and the selector has the columns \<^verbatim>\<open>chr\<close>,
  \<^verbatim>\<open>start\<close> and \<^verbatim>\<open>end\<close>.
\<close>

definition line_ok :: "(string \<Rightarrow> 'f option) \<Rightarrow> string \<Rightarrow> bool" where
  "line_ok pf l = (\<not> isl (parse_line pf (new_data []) l))"

fun params_ok :: "(string \<Rightarrow> 'f option) \<Rightarrow> string \<times> 'v node \<Rightarrow> bool" where
  "params_ok pf (sample_folder, Dir entries) =
     (case first_match ''.params.txt'' entries of
        None \<Rightarrow> True
      | Some (file_name, Dir _) \<Rightarrow> False
      | Some (file_name, File ls _) \<Rightarrow> list_all (line_ok pf) ls)"
| "params_ok pf (sample_folder, File _ _) = True"

fun seg_ok :: "string \<Rightarrow> string \<times> 'v node \<Rightarrow> bool" where
  "seg_ok choice (file_name, Dir _) = True"
| "seg_ok choice (file_name, File _ None) = (\<not> endswith file_name ''.cna.seg'')"
| "seg_ok choice (file_name, File _ (Some df)) =
     (endswith file_name ''.cna.seg''
        \<and> replace ''.cna.seg'' [] file_name @ ''.'' @ choice \<in> set (columns df)
      \<longrightarrow> ''chr'' \<in> set (columns df) \<and> ''start'' \<in> set (columns df)
          \<and> ''end'' \<in> set (columns df))"

fun segs_ok :: "string \<Rightarrow> string \<times> 'v node \<Rightarrow> bool" where
  "segs_ok choice (item, Dir entries) = list_all (seg_ok choice) entries"
| "segs_ok choice (item, File _ _) = True"

section \<open>An example results directory\<close>

text \<open>
  The scenario of the specification, with the listing in an order that is not sorted: the
  samples \<^verbatim>\<open>S2\<close> and \<^verbatim>\<open>S1\<close>, each with a parameter file and a segmentation file of one
  row for the interval \<^verbatim>\<open>chr1, 0, 1000\<close>, a regular file, and a directory \<^verbatim>\<open>logs\<close>
  that holds neither kind of file.
\<close>

definition example_float :: "string \<Rightarrow> real option" where
  "example_float s =
     (if s = ''0.12'' then Some (12 / 100) else if s = ''2.1'' then Some (21 / 10) else None)"

definition example_frame :: "string \<Rightarrow> real \<Rightarrow> real frame" where
  "example_frame lib v =
     \<lparr>columns = [''chr'', ''start'', ''end'', lib @ ''.logR'', lib @ ''.logR_Copy_Number''],
      lines = [\<lparr>r_chr = ''chr1'', r_start = 0, r_end = 1000,
                r_cell = (\<lambda>c. if c = lib @ ''.logR'' then v else v + 1)\<rparr>]\<rparr>"

definition example_tree :: "real listing" where
  "example_tree =
     [(''S2'', Dir [(''S2.cna.seg'', File [] (Some (example_frame ''S2'' (3 / 100)))),
                    (''S2.params.txt'',
                       File [''Tumor Fraction: NA'', ''Ploidy: 2.1'', ''Gender: female''] None)]),
      (''notes.txt'', File [''done''] None),
      (''S1'', Dir [(''S1.params.txt'',
                       File [''Tumor Fraction: 0.12'', ''Ploidy: 2.1'', ''Gender: female''] None),
                    (''S1.cna.seg'', File [] (Some (example_frame ''S1'' (- 5 / 100))))]),
      (''logs'', Dir [(''run.log'', File [] None)])]"

text \<open>
  A long-format table in which \<^verbatim>\<open>S2\<close> has no record for the second interval, and its
  matrix; a results directory whose two libraries \<^verbatim>\<open>a.bam\<close> and \<^verbatim>\<open>a\<close> fall together
  once \<^verbatim>\<open>.bam\<close> is removed; the arguments of an invocation.
\<close>

definition example_table :: "real long_row list" where
  "example_table =
     [\<lparr>seg_library = ''S1'', seg_chr = ''chr1'', seg_start = 0, seg_end = 1000,
       seg_value = - 5 / 100\<rparr>,
      \<lparr>seg_library = ''S1'', seg_chr = ''chr2'', seg_start = 0, seg_end = 500,
       seg_value = 1 / 10\<rparr>,
      \<lparr>seg_library = ''S2'', seg_chr = ''chr1'', seg_start = 0, seg_end = 1000,
       seg_value = 3 / 100\<rparr>]"

definition example_matrix :: "real matrix" where
  "example_matrix =
     \<lparr>lib_columns = [''S1'', ''S2''],
      m_rows = [((''chr1'', 0, 1000), [Some (- 5 / 100), Some (3 / 100)]),
                ((''chr2'', 0, 500), [Some (1 / 10), None])]\<rparr>"

definition duplicate_tree :: "real listing" where
  "duplicate_tree =
     [(''a'', Dir [(''a.bam.cna.seg'', File [] (Some (example_frame ''a.bam'' 1))),
                   (''a.cna.seg'', File [] (Some (example_frame ''a'' 2)))])]"

definition example_args :: args where
  "example_args =
     \<lparr>results_dir = ''results'', output_dir = ''out'', bam_name_pattern = ''.bam'',
      create_zips = False,
      help_text = [''usage: ichorCNA_results_summary.py --results_dir RESULTS_DIR ''
                   @ ''--output_dir OUTPUT_DIR [--bam_name_pattern PATTERN] [--create_zips]'']\<rparr>"

section \<open>Facts about the string functions\<close>

lemma replace_Nil: "old \<noteq> [] \<Longrightarrow> replace old new [] = []"
  by (simp add: replace.simps)

lemma replace_Cons:
  "old \<noteq> [] \<Longrightarrow> replace old new (c # cs) =
     (if startswith (c # cs) old then new @ replace old new (drop (length old) (c # cs))
      else c # replace old new cs)"
  by (subst replace.simps) simp

lemma startswith_Nil: "startswith [] p = (p = [])"
  by (cases p) simp_all

lemma startswith_contains: "startswith s p \<Longrightarrow> contains p s"
  by (cases s) (simp_all add: startswith_Nil)

lemma replace_absent:
  "old \<noteq> [] \<Longrightarrow> \<not> contains old s \<Longrightarrow> replace old new s = s"
  by (induction s) (simp_all add: replace_Nil replace_Cons)

section \<open>The library-name normalizer\<close>

text \<open>
  Claim C9. For every library identifier and every non-empty pattern: if the identifier
  with all occurrences of the pattern removed does not contain the pattern, then
  normalizing twice gives what normalizing once gives.
\<close>

theorem normalize_idempotent:
  "pattern \<noteq> [] \<Longrightarrow> \<not> contains pattern (normalize pattern lib)
     \<Longrightarrow> normalize pattern (normalize pattern lib) = normalize pattern lib"
  unfolding normalize_def by (rule replace_absent)

theorem normalize_idempotent_witness:
  "''_filt.bam'' \<noteq> [] \<and> \<not> contains ''_filt.bam'' (normalize ''_filt.bam'' ''sample1_filt.bam'')
   \<and> normalize ''_filt.bam'' (normalize ''_filt.bam'' ''sample1_filt.bam'')
       = normalize ''_filt.bam'' ''sample1_filt.bam''"
proof -
  have n: "normalize ''_filt.bam'' ''sample1_filt.bam'' = ''sample1''"
    by (simp add: normalize_def replace_Nil replace_Cons)
  have a: "''_filt.bam'' \<noteq> []" by simp
  have b: "\<not> contains ''_filt.bam'' (normalize ''_filt.bam'' ''sample1_filt.bam'')"
    unfolding n by simp
  from normalize_idempotent [OF a b] a b show ?thesis by blast
qed

section \<open>The value of a parameter line\<close>



lemma split_not_Nil: "split sep s \<noteq> []"
  by (induction s) (auto split: list.splits)

lemma split_absent: "sep \<notin> set s \<Longrightarrow> split sep s = [s]"
  by (induction s) auto

lemma split_present:
  "sep \<in> set s \<Longrightarrow>
     split sep s = takeWhile (\<lambda>c. c \<noteq> sep) s # split sep (drop 1 (dropWhile (\<lambda>c. c \<noteq> sep) s))"
proof (induction s)
  case Nil
  then show ?case by simp
next
  case (Cons c cs)
  show ?case
  proof (cases "c = sep")
    case True
    then show ?thesis by simp
  next
    case False
    with Cons.prems have "sep \<in> set cs" by simp
    from Cons.IH [OF this] False show ?thesis by simp
  qed
qed

lemma split_hd: "\<exists>ws. split sep s = takeWhile (\<lambda>c. c \<noteq> sep) s # ws"
proof (cases "sep \<in> set s")
  case True
  then show ?thesis by (simp add: split_present)
next
  case False
  then have tw: "takeWhile (\<lambda>c. c \<noteq> sep) s = s"
    by auto
  from False show ?thesis by (simp add: split_absent tw)
qed

lemma index1_split:
  assumes "CHR '':'' \<in> set line"
  shows "index1 (split CHR '':'' line) = Inr (up_to_next_colon line)"
proof -
  obtain ws where "split CHR '':'' (after_first_colon line) = up_to_next_colon line # ws"
    using split_hd [of "CHR '':''" "after_first_colon line"]
    by (auto simp: up_to_next_colon_def)
  with split_present [OF assms] show ?thesis
    by (simp add: after_first_colon_def)
qed

lemma startswith_set: "startswith s p \<Longrightarrow> set p \<subseteq> set s"
  by (induction s p rule: startswith.induct) auto

lemma contains_set: "contains p s \<Longrightarrow> set p \<subseteq> set s"
proof (induction s)
  case Nil
  then show ?case by simp
next
  case (Cons c cs)
  from Cons.prems have "startswith (c # cs) p \<or> contains p cs" by simp
  then show ?case
  proof
    assume "startswith (c # cs) p"
    then show ?thesis by (rule startswith_set)
  next
    assume "contains p cs"
    with Cons.IH show ?thesis by auto
  qed
qed

lemma recognize_colon: "recognize line = Some lab \<Longrightarrow> CHR '':'' \<in> set line"
  by (auto simp: recognize_def split: if_splits dest!: contains_set)

lemma field_value_recognized:
  "recognize line = Some lab \<Longrightarrow> field_value line = Inr (strip (up_to_next_colon line))"
  by (simp add: field_value_def index1_split recognize_colon)

text \<open>
  Claim C7, as amended. For every line in which a label is recognized, the value recorded is
  the text between the first colon of the stripped line and the next colon (all the text
  after the first colon when there is no further colon), stripped of surrounding
  whitespace; the gender keeps it as text, a numeric field parses it as a float unless it
  is the literal \<^verbatim>\<open>NA\<close>, which gives \<^verbatim>\<open>NaN\<close>.
\<close>

theorem parse_line_value:
  assumes "recognize (strip raw) = Some lab"
  shows "parse_line pf d raw =
           (let v = strip (up_to_next_colon (strip raw)) in
            if lab = Gender then Inr (set_field Gender (Str v) d)
            else if v = ''NA'' then Inr (set_field lab NaN d)
            else (case pf v of None \<Rightarrow> Inl ValueError | Some x \<Rightarrow> Inr (set_field lab (Float x) d)))
         \<and> (CHR '':'' \<notin> set (after_first_colon (strip raw))
              \<longrightarrow> up_to_next_colon (strip raw) = after_first_colon (strip raw))"
proof
  show "parse_line pf d raw =
           (let v = strip (up_to_next_colon (strip raw)) in
            if lab = Gender then Inr (set_field Gender (Str v) d)
            else if v = ''NA'' then Inr (set_field lab NaN d)
            else (case pf v of None \<Rightarrow> Inl ValueError | Some x \<Rightarrow> Inr (set_field lab (Float x) d)))"
    using assms field_value_recognized [OF assms]
    by (cases lab) (simp_all add: parse_line_def to_float_def Let_def split: option.splits)
  show "CHR '':'' \<notin> set (after_first_colon (strip raw))
          \<longrightarrow> up_to_next_colon (strip raw) = after_first_colon (strip raw)"
    unfolding up_to_next_colon_def
    by (auto intro: takeWhile_eq_all_conv [THEN iffD2])
qed

text \<open>
  The claim as stated fails: in \<^verbatim>\<open>Gender: a:b\<close> the text after the first colon is
  \<^verbatim>\<open>a:b\<close>, and the value recorded is \<^verbatim>\<open>a\<close>.
\<close>

theorem parse_line_value_counterexample:
  "parse_line (\<lambda>s. None :: real option) (new_data ''S1'') ''Gender: a:b''
     = Inr ((new_data ''S1'')\<lparr>d_gender := Some (Str ''a'')\<rparr>)
   \<and> strip (after_first_colon ''Gender: a:b'') = ''a:b''"
  by (simp add: parse_line_def recognize_def field_value_def strip_def isspace_def
      after_first_colon_def new_data_def)


theorem parse_line_value_witness:
  "recognize (strip (''Tumor Fraction: 0.12'' @ [CHR 0x0A])) = Some Tumor_Fraction
   \<and> parse_line (\<lambda>s. if s = ''0.12'' then Some (12 / 100 :: real) else None) (new_data ''S1'')
         (''Tumor Fraction: 0.12'' @ [CHR 0x0A])
       = Inr (set_field Tumor_Fraction (Float (12 / 100)) (new_data ''S1''))"
proof -
  have s: "strip (''Tumor Fraction: 0.12'' @ [CHR 0x0A]) = ''Tumor Fraction: 0.12''"
    by (simp add: strip_def isspace_def)
  have h: "recognize (strip (''Tumor Fraction: 0.12'' @ [CHR 0x0A])) = Some Tumor_Fraction"
    unfolding s by (simp add: recognize_def)
  have v: "strip (up_to_next_colon ''Tumor Fraction: 0.12'') = ''0.12''"
    by (simp add: strip_def isspace_def up_to_next_colon_def after_first_colon_def)
  from parse_line_value [OF h, of "\<lambda>s. if s = ''0.12'' then Some (12 / 100 :: real) else None"
      "new_data ''S1''"] h
  show ?thesis unfolding s by (simp add: v)
qed

section \<open>Facts about the parameter extraction\<close>



lemma first_match_None:
  "first_match suffix es = None \<longleftrightarrow> (\<forall>(n, f)\<in>set es. \<not> endswith n suffix)"
  by (induction es) (auto split: if_splits)

lemma first_match_Some:
  "first_match suffix es = Some (n, f) \<Longrightarrow> (n, f) \<in> set es \<and> endswith n suffix"
  by (induction es) (auto split: if_splits)

lemma first_match_find:
  "first_match suffix es = find (\<lambda>(n, f). endswith n suffix) es"
  by (induction es) auto

lemma set_field_library: "d_library (set_field lab x d) = d_library d"
  by (cases lab) simp_all

lemma get_set_field_same: "get_field lab (set_field lab x d) = Some x"
  by (cases lab) simp_all

lemma get_set_field_other: "lab' \<noteq> lab \<Longrightarrow> get_field lab (set_field lab' x d) = get_field lab d"
  by (cases lab; cases lab') simp_all

lemma parse_line_cases:
  assumes "parse_line pf d raw = Inr d'"
  shows "(recognize (strip raw) = None \<and> d' = d)
         \<or> (\<exists>lab x. recognize (strip raw) = Some lab \<and> d' = set_field lab x d)"
proof (cases "recognize (strip raw)")
  case None
  with assms show ?thesis by (simp add: parse_line_def)
next
  case (Some lab)
  with assms show ?thesis
    by (cases lab) (auto simp: parse_line_def Let_def split: sum.splits)
qed

lemma parse_line_library: "parse_line pf d raw = Inr d' \<Longrightarrow> d_library d' = d_library d"
  by (drule parse_line_cases) (auto simp: set_field_library)

lemma parse_line_other:
  "parse_line pf d raw = Inr d' \<Longrightarrow> recognize (strip raw) \<noteq> Some lab
     \<Longrightarrow> get_field lab d' = get_field lab d"
  by (drule parse_line_cases) (auto simp: get_set_field_other)

lemma parse_lines_library: "parse_lines pf d ls = Inr d' \<Longrightarrow> d_library d' = d_library d"
proof (induction ls arbitrary: d)
  case Nil
  then show ?case by simp
next
  case (Cons l ls)
  then show ?case by (auto split: sum.splits dest: parse_line_library)
qed

lemma parse_lines_other:
  "parse_lines pf d ls = Inr d' \<Longrightarrow> \<forall>l\<in>set ls. recognize (strip l) \<noteq> Some lab
     \<Longrightarrow> get_field lab d' = get_field lab d"
proof (induction ls arbitrary: d)
  case Nil
  then show ?case by simp
next
  case (Cons l ls)
  then show ?case by (auto split: sum.splits dest: parse_line_other)
qed

lemma parse_lines_append:
  "parse_lines pf d (xs @ ys) =
     (case parse_lines pf d xs of Inl e \<Rightarrow> Inl e | Inr d1 \<Rightarrow> parse_lines pf d1 ys)"
  by (induction xs arbitrary: d) (auto split: sum.splits)

lemma parse_line_NA:
  assumes "recognize (strip l) = Some lab" "field_value (strip l) = Inr ''NA''"
  shows "parse_line pf d l = Inr (set_field lab (if lab = Gender then Str ''NA'' else NaN) d)"
  using assms by (cases lab) (simp_all add: parse_line_def to_float_def)

lemma parse_lines_NA:
  assumes "parse_lines pf d (pre @ l # post) = Inr d'"
    and "recognize (strip l) = Some lab" and "field_value (strip l) = Inr ''NA''"
    and "\<forall>l'\<in>set post. recognize (strip l') \<noteq> Some lab"
  shows "get_field lab d' = Some (if lab = Gender then Str ''NA'' else NaN)"
proof -
  from assms(1) obtain d1 where d1: "parse_lines pf d pre = Inr d1"
    and rest: "parse_lines pf d1 (l # post) = Inr d'"
    by (auto simp: parse_lines_append split: sum.splits)
  from rest parse_line_NA [OF assms(2,3), of pf d1]
  have "parse_lines pf (set_field lab (if lab = Gender then Str ''NA'' else NaN) d1) post = Inr d'"
    by simp
  from parse_lines_other [OF this assms(4)] show ?thesis
    by (simp add: get_set_field_same)
qed

lemma row_field_to_row: "row_field lab (to_row d) = or_nan (get_field lab d)"
  by (cases lab) (simp_all add: to_row_def)

lemma tf_loop_out:
  "tf_loop pf tree out acc = (out @ fst (tf_loop pf tree [] acc), snd (tf_loop pf tree [] acc))"
proof (induction tree arbitrary: out acc)
  case Nil
  then show ?case by simp
next
  case (Cons x tree)
  obtain name nd where x: "x = (name, nd)" by (cases x)
  show ?case
  proof (cases nd)
    case (File ls t)
    with x Cons.IH [of out acc] show ?thesis by simp
  next
    case (Dir es)
    show ?thesis
    proof (cases "first_match ''.params.txt'' es")
      case None
      with x Dir Cons.IH [of "out @ [''No params.txt file found for sample: '' @ name]" acc]
        Cons.IH [of "[''No params.txt file found for sample: '' @ name]" acc]
      show ?thesis by simp
    next
      case (Some m)
      obtain fn f where m: "m = (fn, f)" by (cases m)
      show ?thesis
      proof (cases "open_lines f")
        case (Inl e)
        with x Dir Some m show ?thesis by simp
      next
        case (Inr ls)
        show ?thesis
        proof (cases "parse_lines pf (new_data name) ls")
          case (Inl e)
          with x Dir Some m Inr show ?thesis by simp
        next
          case Inr2: (Inr d)
          with x Dir Some m Inr Cons.IH [of out "acc @ [d]"] show ?thesis by simp
        qed
      qed
    qed
  qed
qed

lemma tf_loop_append:
  "tf_loop pf (xs @ ys) out acc =
     (case tf_loop pf xs out acc of
        (out1, Inl e) \<Rightarrow> (out1, Inl e)
      | (out1, Inr dl) \<Rightarrow> tf_loop pf ys out1 dl)"
proof (induction xs arbitrary: out acc)
  case Nil
  then show ?case by simp
next
  case (Cons x xs)
  obtain name nd where x: "x = (name, nd)" by (cases x)
  show ?case using Cons.IH
    by (simp add: x split: node.splits option.splits sum.splits prod.splits)
qed


lemma open_lines_Inr: "open_lines f = Inr ls \<Longrightarrow> \<exists>t. f = File ls t"
  by (cases f) simp_all

lemma holds_file_first_match:
  "first_match suffix es = Some (fn, f) \<Longrightarrow> isfile f \<Longrightarrow> holds_file suffix (Dir es)"
  by (drule first_match_Some) (auto simp: list_ex_iff)

lemma holds_file_no_match:
  "first_match suffix es = None \<Longrightarrow> \<not> holds_file suffix (Dir es)"
  by (auto simp: first_match_None list_ex_iff)

lemma tf_loop_libraries:
  "tf_loop pf tree out acc = (out', Inr dl) \<Longrightarrow>
     map d_library dl
       = map d_library acc @ map fst (filter (\<lambda>(n, nd). holds_file ''.params.txt'' nd) tree)"
proof (induction tree arbitrary: out acc)
  case Nil
  then show ?case by simp
next
  case (Cons x tree)
  obtain name nd where x: "x = (name, nd)" by (cases x)
  show ?case
  proof (cases nd)
    case (File ls t)
    with x Cons.prems Cons.IH [of out acc] show ?thesis by simp
  next
    case (Dir es)
    show ?thesis
    proof (cases "first_match ''.params.txt'' es")
      case None
      with x Dir Cons.prems
        Cons.IH [of "out @ [''No params.txt file found for sample: '' @ name]" acc]
        holds_file_no_match [OF None]
      show ?thesis by simp
    next
      case (Some m)
      obtain fn f where m: "m = (fn, f)" by (cases m)
      from x Dir Some m Cons.prems obtain ls d where
        o: "open_lines f = Inr ls" and p: "parse_lines pf (new_data name) ls = Inr d"
        and r: "tf_loop pf tree out (acc @ [d]) = (out', Inr dl)"
        by (auto split: sum.splits)
      from o have "isfile f" by (auto dest: open_lines_Inr)
      with Some m have h: "holds_file ''.params.txt'' (Dir es)"
        using holds_file_first_match [of "''.params.txt''" es fn f] by blast
      from parse_lines_library [OF p] have "d_library d = name" by (simp add: new_data_def)
      with Cons.IH [OF r] h x Dir show ?thesis by simp
    qed
  qed
qed

lemma tf_loop_member:
  "tf_loop pf tree out acc = (out', Inr dl) \<Longrightarrow>
     set acc \<subseteq> set dl \<and>
     (\<forall>sample es fn ls t. (sample, Dir es) \<in> set tree
         \<longrightarrow> first_match ''.params.txt'' es = Some (fn, File ls t)
         \<longrightarrow> (\<exists>d. parse_lines pf (new_data sample) ls = Inr d \<and> d \<in> set dl))"
proof (induction tree arbitrary: out acc)
  case Nil
  then show ?case by simp
next
  case (Cons x tree)
  obtain name nd where x: "x = (name, nd)" by (cases x)
  show ?case
  proof (cases nd)
    case (File ls t)
    with x Cons.prems Cons.IH [of out acc] show ?thesis by simp
  next
    case (Dir es)
    show ?thesis
    proof (cases "first_match ''.params.txt'' es")
      case None
      with x Dir Cons.prems
        Cons.IH [of "out @ [''No params.txt file found for sample: '' @ name]" acc]
      show ?thesis by auto
    next
      case (Some m)
      obtain fn f where m: "m = (fn, f)" by (cases m)
      from x Dir Some m Cons.prems obtain ls d where
        o: "open_lines f = Inr ls" and p: "parse_lines pf (new_data name) ls = Inr d"
        and r: "tf_loop pf tree out (acc @ [d]) = (out', Inr dl)"
        by (auto split: sum.splits)
      from o obtain t where f: "f = File ls t" by (auto dest: open_lines_Inr)
      from Cons.IH [OF r] have sub: "set acc \<subseteq> set dl" and din: "d \<in> set dl"
        and rest: "\<forall>sample es fn ls t. (sample, Dir es) \<in> set tree
         \<longrightarrow> first_match ''.params.txt'' es = Some (fn, File ls t)
         \<longrightarrow> (\<exists>d. parse_lines pf (new_data sample) ls = Inr d \<and> d \<in> set dl)"
        by auto
      show ?thesis
      proof (intro conjI allI impI)
        show "set acc \<subseteq> set dl" by (rule sub)
      next
        fix sample es' fn' ls' t'
        assume a: "(sample, Dir es') \<in> set (x # tree)"
          and b: "first_match ''.params.txt'' es' = Some (fn', File ls' t')"
        show "\<exists>d. parse_lines pf (new_data sample) ls' = Inr d \<and> d \<in> set dl"
        proof (cases "(sample, Dir es') = x")
          case True
          with x Dir have "sample = name" "es' = es" by simp_all
          with b Some m f have "ls' = ls" by simp
          with p din \<open>sample = name\<close> show ?thesis by auto
        next
          case False
          with a have "(sample, Dir es') \<in> set tree" by auto
          with rest b show ?thesis by blast
        qed
      qed
    qed
  qed
qed

text \<open>
  Claim C3. When the parameter extractor returns a table, the table has one record for
  each directory of the results directory that holds a file with a name ending in
  \<^verbatim>\<open>.params.txt\<close>, under the name of that directory, and no other record; the records
  are in ascending order of the library. With the names of a listing all different, no
  library occurs twice.
\<close>

theorem extract_tf_data_records:
  assumes "extract_tf_data pf tree = (out, Inr tbl)"
  shows "sorted (map library tbl)
       \<and> mset (map library tbl)
           = mset (map fst (filter (\<lambda>(name, nd). holds_file ''.params.txt'' nd) tree))
       \<and> (distinct (map fst tree) \<longrightarrow> distinct (map library tbl))"
proof -
  from assms obtain dl where l: "tf_loop pf tree [] [] = (out, Inr dl)"
    and tbl: "tbl = sort_key library (map to_row dl)"
    by (auto simp: extract_tf_data_def split: prod.splits sum.splits)
  have lib: "map library (map to_row dl) = map d_library dl"
    by (simp add: to_row_def)
  from tf_loop_libraries [OF l]
  have names: "map d_library dl = map fst (filter (\<lambda>(name, nd). holds_file ''.params.txt'' nd) tree)"
    by simp
  have s: "sorted (map library tbl)" unfolding tbl by (rule sorted_sort_key)
  have "mset (map library tbl) = mset (map library (map to_row dl))"
    unfolding tbl by (simp del: map_map)
  with lib names have m: "mset (map library tbl)
           = mset (map fst (filter (\<lambda>(name, nd). holds_file ''.params.txt'' nd) tree))"
    by simp
  have "distinct (map library tbl)" if "distinct (map fst tree)"
  proof -
    from that have "distinct (map fst (filter (\<lambda>(name, nd). holds_file ''.params.txt'' nd) tree))"
      by (rule distinct_map_filter)
    with m show ?thesis by (metis mset_eq_imp_distinct_iff)
  qed
  with s m show ?thesis by blast
qed

lemmas example_eval = parse_line_def recognize_def field_value_def strip_def isspace_def
  to_float_def new_data_def to_row_def or_nan_def endswith_def example_tree_def example_float_def
  example_frame_def

theorem extract_tf_data_records_witness:
  "extract_tf_data example_float example_tree =
     ([''No params.txt file found for sample: logs''],
      Inr [\<lparr>library = ''S1'', tumor_fraction = Float (12 / 100), ploidy = Float (21 / 10),
             gender = Str ''female'', ChrY_coverage_fraction_col = NaN,
             ChrX_median_log_ratio_col = NaN\<rparr>,
           \<lparr>library = ''S2'', tumor_fraction = NaN, ploidy = Float (21 / 10),
             gender = Str ''female'', ChrY_coverage_fraction_col = NaN,
             ChrX_median_log_ratio_col = NaN\<rparr>])
   \<and> map fst (filter (\<lambda>(name, nd). holds_file ''.params.txt'' nd) example_tree) = [''S2'', ''S1'']
   \<and> sorted [''S1'', ''S2'']
   \<and> mset [''S1'', ''S2''] = mset [''S2'', ''S1'']
   \<and> distinct (map fst example_tree) \<and> distinct [''S1'', ''S2'']"
proof -
  have e: "extract_tf_data example_float example_tree =
     ([''No params.txt file found for sample: logs''],
      Inr [\<lparr>library = ''S1'', tumor_fraction = Float (12 / 100), ploidy = Float (21 / 10),
             gender = Str ''female'', ChrY_coverage_fraction_col = NaN,
             ChrX_median_log_ratio_col = NaN\<rparr>,
           \<lparr>library = ''S2'', tumor_fraction = NaN, ploidy = Float (21 / 10),
             gender = Str ''female'', ChrY_coverage_fraction_col = NaN,
             ChrX_median_log_ratio_col = NaN\<rparr>])"
    by (simp add: extract_tf_data_def example_eval)
  have f: "map fst (filter (\<lambda>(name, nd). holds_file ''.params.txt'' nd) example_tree) = [''S2'', ''S1'']"
    by (simp add: example_eval)
  have d: "distinct (map fst example_tree)"
    by (simp add: example_tree_def)
  from extract_tf_data_records [OF e] e f d show ?thesis by simp
qed

section \<open>The literal \<^verbatim>\<open>NA\<close>\<close>

text \<open>
  What the extractor records for the value \<^verbatim>\<open>NA\<close>. When it returns a table, and a line
  of the parameter file of a sample has a recognized label and the value \<^verbatim>\<open>NA\<close>, and
  that line is the last one of the file with that label: the four numeric branches test
  \<^verbatim>\<open>value != 'NA'\<close> and the record holds \<^verbatim>\<open>NaN\<close> in the field; the gender branch has no
  such test and the record holds the text.
\<close>

lemma NA_recorded:
  assumes "extract_tf_data pf tree = (out, Inr tbl)"
    and "(sample, Dir es) \<in> set tree"
    and "first_match ''.params.txt'' es = Some (fn, File (pre @ l # post) t)"
    and "recognize (strip l) = Some lab"
    and "field_value (strip l) = Inr ''NA''"
    and "\<forall>l'\<in>set post. recognize (strip l') \<noteq> Some lab"
  shows "\<exists>row\<in>set tbl. library row = sample
           \<and> row_field lab row = (if lab = Gender then Str ''NA'' else NaN)"
proof -
  from assms(1) obtain dl where l: "tf_loop pf tree [] [] = (out, Inr dl)"
    and tbl: "tbl = sort_key library (map to_row dl)"
    by (auto simp: extract_tf_data_def split: prod.splits sum.splits)
  from tf_loop_member [OF l] assms(2,3) obtain d where
    p: "parse_lines pf (new_data sample) (pre @ l # post) = Inr d" and d: "d \<in> set dl"
    by blast
  from parse_lines_NA [OF p assms(4,5,6)]
  have g: "get_field lab d = Some (if lab = Gender then Str ''NA'' else NaN)" .
  from parse_lines_library [OF p] have lib: "library (to_row d) = sample"
    by (simp add: to_row_def new_data_def)
  from g have "row_field lab (to_row d) = (if lab = Gender then Str ''NA'' else NaN)"
    by (simp add: row_field_to_row or_nan_def)
  moreover from d have "to_row d \<in> set tbl" unfolding tbl by simp
  ultimately show ?thesis using lib by blast
qed

lemma NA_recorded_example:
  "(\<exists>row\<in>set [\<lparr>library = ''S1'', tumor_fraction = Float (12 / 100), ploidy = Float (21 / 10),
             gender = Str ''female'', ChrY_coverage_fraction_col = NaN,
             ChrX_median_log_ratio_col = NaN\<rparr>,
           \<lparr>library = ''S2'', tumor_fraction = NaN, ploidy = Float (21 / 10),
             gender = Str ''female'', ChrY_coverage_fraction_col = NaN,
             ChrX_median_log_ratio_col = (NaN :: real pyval)\<rparr>].
      library row = ''S2'' \<and> row_field Tumor_Fraction row = NaN)
   \<and> recognize (strip ''Tumor Fraction: NA'') = Some Tumor_Fraction
   \<and> field_value (strip ''Tumor Fraction: NA'') = Inr ''NA''"
proof -
  let ?es = "[(''S2.cna.seg'', File [] (Some (example_frame ''S2'' (3 / 100)))),
              (''S2.params.txt'',
                 File [''Tumor Fraction: NA'', ''Ploidy: 2.1'', ''Gender: female''] None)]"
  have e: "extract_tf_data example_float example_tree =
     ([''No params.txt file found for sample: logs''],
      Inr [\<lparr>library = ''S1'', tumor_fraction = Float (12 / 100), ploidy = Float (21 / 10),
             gender = Str ''female'', ChrY_coverage_fraction_col = NaN,
             ChrX_median_log_ratio_col = NaN\<rparr>,
           \<lparr>library = ''S2'', tumor_fraction = NaN, ploidy = Float (21 / 10),
             gender = Str ''female'', ChrY_coverage_fraction_col = NaN,
             ChrX_median_log_ratio_col = NaN\<rparr>])"
    by (simp add: extract_tf_data_def example_eval)
  have m: "(''S2'', Dir ?es) \<in> set example_tree"
    by (simp add: example_tree_def)
  have f: "first_match ''.params.txt'' ?es
      = Some (''S2.params.txt'',
          File ([] @ ''Tumor Fraction: NA'' # [''Ploidy: 2.1'', ''Gender: female'']) None)"
    by (simp add: endswith_def)
  have r: "recognize (strip ''Tumor Fraction: NA'') = Some Tumor_Fraction"
    by (simp add: example_eval)
  have v: "field_value (strip ''Tumor Fraction: NA'') = Inr ''NA''"
    by (simp add: example_eval)
  have p: "\<forall>l'\<in>set [''Ploidy: 2.1'', ''Gender: female'']. recognize (strip l') \<noteq> Some Tumor_Fraction"
    by (simp add: example_eval)
  from NA_recorded [OF e m f r v p] r v show ?thesis by simp
qed

text \<open>
  Claim C4. The literal \<^verbatim>\<open>NA\<close> as the value of any of the five labels must give a missing
  value in the record of the sample, never the text \<^verbatim>\<open>NA\<close>. The code does not do so for
  the gender: for a parameter file with the lines \<^verbatim>\<open>Gender: NA\<close> and \<^verbatim>\<open>Ploidy: NA\<close> the
  table holds the text \<^verbatim>\<open>NA\<close> as the gender, next to a ploidy that is \<^verbatim>\<open>NaN\<close>.
\<close>

theorem gender_NA_kept_as_text:
  "extract_tf_data example_float
     [(''S1'', Dir [(''S1.params.txt'', File [''Gender: NA'', ''Ploidy: NA''] None)])]
   = ([], Inr [\<lparr>library = ''S1'', tumor_fraction = NaN, ploidy = NaN, gender = Str ''NA'',
                 ChrY_coverage_fraction_col = NaN, ChrX_median_log_ratio_col = NaN\<rparr>])"
  by (simp add: extract_tf_data_def example_eval)

section \<open>Directories without the expected file\<close>

lemma tf_loop_skip:
  assumes "first_match ''.params.txt'' es = None"
  shows "snd (tf_loop pf (pre @ (d, Dir es) # post) out acc) = snd (tf_loop pf (pre @ post) out acc)"
    and "snd (tf_loop pf (pre @ (d, Dir es) # post) out acc) = Inr dl \<Longrightarrow>
           (''No params.txt file found for sample: '' @ d)
             \<in> set (fst (tf_loop pf (pre @ (d, Dir es) # post) out acc))"
proof -
  obtain o1 r1 where p: "tf_loop pf pre out acc = (o1, r1)" by (cases "tf_loop pf pre out acc")
  show "snd (tf_loop pf (pre @ (d, Dir es) # post) out acc) = snd (tf_loop pf (pre @ post) out acc)"
  proof (cases r1)
    case (Inl e)
    with p show ?thesis by (simp add: tf_loop_append)
  next
    case (Inr dl1)
    with p assms show ?thesis
      using tf_loop_out [of pf post "o1 @ [''No params.txt file found for sample: '' @ d]" dl1]
        tf_loop_out [of pf post o1 dl1]
      by (simp add: tf_loop_append)
  qed
  show "(''No params.txt file found for sample: '' @ d)
             \<in> set (fst (tf_loop pf (pre @ (d, Dir es) # post) out acc))"
    if "snd (tf_loop pf (pre @ (d, Dir es) # post) out acc) = Inr dl"
  proof (cases r1)
    case (Inl e)
    with p that show ?thesis by (simp add: tf_loop_append)
  next
    case (Inr dl1)
    with p assms show ?thesis
      using tf_loop_out [of pf post "o1 @ [''No params.txt file found for sample: '' @ d]" dl1]
      by (simp add: tf_loop_append)
  qed
qed

lemma extract_tf_data_snd:
  "snd (extract_tf_data pf tree) =
     (case snd (tf_loop pf tree [] []) of Inl e \<Rightarrow> Inl e
      | Inr dl \<Rightarrow> Inr (sort_key library (map to_row dl)))"
  by (simp add: extract_tf_data_def split: prod.splits sum.splits)

lemma extract_tf_data_fst: "fst (extract_tf_data pf tree) = fst (tf_loop pf tree [] [])"
  by (simp add: extract_tf_data_def split: prod.splits sum.splits)

section \<open>Facts about the segmentation extraction\<close>

lemma rows_of_append: "rows_of choice (xs @ ys) = rows_of choice xs @ rows_of choice ys"
  by (simp add: rows_of_def)

lemma cna_files_rows:
  "cna_files choice es data = Inr data' \<Longrightarrow>
     data' = data @ rows_of choice (seg_files_of choice es)"
proof (induction es arbitrary: data)
  case Nil
  then show ?case by (simp add: seg_files_of_def rows_of_def List.map_filter_simps)
next
  case (Cons x es)
  obtain fn nd where x: "x = (fn, nd)" by (cases x)
  have step: "seg_files_of choice (x # es) =
      (case nd of Dir _ \<Rightarrow> [] | File _ None \<Rightarrow> []
       | File _ (Some df) \<Rightarrow>
           if endswith fn ''.cna.seg''
              \<and> replace ''.cna.seg'' [] fn @ ''.'' @ choice \<in> set (columns df)
           then [(replace ''.cna.seg'' [] fn, df)] else []) @ seg_files_of choice es"
    by (simp add: seg_files_of_def x List.map_filter_simps split: node.splits option.splits)
  show ?case
  proof (cases "endswith fn ''.cna.seg''")
    case False
    with Cons.prems x have "cna_files choice es data = Inr data'" by simp
    from Cons.IH [OF this] False show ?thesis
      by (simp add: step split: node.splits option.splits)
  next
    case True
    show ?thesis
    proof (cases nd)
      case (Dir sub)
      with Cons.prems x True have "cna_files choice es data = Inr data'" by simp
      from Cons.IH [OF this] Dir show ?thesis by (simp add: step)
    next
      case (File ls t)
      show ?thesis
      proof (cases t)
        case None
        with Cons.prems x True File show ?thesis by simp
      next
        case (Some df)
        show ?thesis
        proof (cases "replace ''.cna.seg'' [] fn @ ''.'' @ choice \<in> set (columns df)")
          case False
          with Cons.prems x True File Some have "cna_files choice es data = Inr data'"
            by (simp add: Let_def)
          from Cons.IH [OF this] False File Some show ?thesis by (simp add: step)
        next
          case col: True
          with Cons.prems x True File Some have
            "cna_files choice es
               (data @ tag_rows (replace ''.cna.seg'' [] fn)
                  (replace ''.cna.seg'' [] fn @ ''.'' @ choice) df) = Inr data'"
            by (simp add: Let_def split: if_splits)
          from Cons.IH [OF this] col True File Some show ?thesis
            by (simp add: step rows_of_def)
        qed
      qed
    qed
  qed
qed

lemma cna_loop_rows:
  "cna_loop choice tree data = Inr data' \<Longrightarrow>
     data' = data @ rows_of choice (seg_files choice tree)"
proof (induction tree arbitrary: data)
  case Nil
  then show ?case by (simp add: seg_files_def rows_of_def)
next
  case (Cons x tree)
  obtain item nd where x: "x = (item, nd)" by (cases x)
  show ?case
  proof (cases nd)
    case (File ls t)
    with Cons.prems x have "cna_loop choice tree data = Inr data'" by simp
    from Cons.IH [OF this] File x show ?thesis by (simp add: seg_files_def)
  next
    case (Dir es)
    with Cons.prems x obtain d1 where f: "cna_files choice es data = Inr d1"
      and r: "cna_loop choice tree d1 = Inr data'"
      by (auto split: sum.splits)
    have "seg_files choice (x # tree) = seg_files_of choice es @ seg_files choice tree"
      by (simp add: seg_files_def x Dir)
    with cna_files_rows [OF f] Cons.IH [OF r] show ?thesis
      by (simp add: rows_of_append)
  qed
qed

lemma seg_files_of_Cons:
  "seg_files_of choice ((fn, nd) # es) =
      (case nd of Dir _ \<Rightarrow> [] | File _ None \<Rightarrow> []
       | File _ (Some df) \<Rightarrow>
           if endswith fn ''.cna.seg''
              \<and> replace ''.cna.seg'' [] fn @ ''.'' @ choice \<in> set (columns df)
           then [(replace ''.cna.seg'' [] fn, df)] else []) @ seg_files_of choice es"
  by (simp add: seg_files_of_def List.map_filter_simps split: node.splits option.splits)

lemma seg_files_of_member:
  assumes "(fn, File ls (Some df)) \<in> set es" and "endswith fn ''.cna.seg''"
    and "replace ''.cna.seg'' [] fn @ ''.'' @ choice \<in> set (columns df)"
  shows "(replace ''.cna.seg'' [] fn, df) \<in> set (seg_files_of choice es)"
  using assms(1)
proof (induction es)
  case Nil
  then show ?case by simp
next
  case (Cons x es)
  obtain fn' nd' where x: "x = (fn', nd')" by (cases x)
  show ?case
  proof (cases "x = (fn, File ls (Some df))")
    case True
    with x have "fn' = fn" "nd' = File ls (Some df)" by simp_all
    with x assms(2,3) show ?thesis by (simp add: seg_files_of_Cons)
  next
    case False
    with Cons have "(replace ''.cna.seg'' [] fn, df) \<in> set (seg_files_of choice es)" by simp
    then show ?thesis by (simp add: x seg_files_of_Cons)
  qed
qed

lemma seg_files_member:
  assumes "(item, Dir es) \<in> set tree" and "(fn, File ls (Some df)) \<in> set es"
    and "endswith fn ''.cna.seg''"
    and "replace ''.cna.seg'' [] fn @ ''.'' @ choice \<in> set (columns df)"
  shows "(replace ''.cna.seg'' [] fn, df) \<in> set (seg_files choice tree)"
  using assms(1) seg_files_of_member [OF assms(2,3,4)]
  by (force simp: seg_files_def)

lemma tag_rows_member:
  "r \<in> set (lines df) \<Longrightarrow>
     \<lparr>seg_library = lib, seg_chr = r_chr r, seg_start = r_start r, seg_end = r_end r,
      seg_value = r_cell r col\<rparr> \<in> set (tag_rows lib col df)"
  by (auto simp: tag_rows_def)

lemma rows_of_member:
  "(lib, df) \<in> set files \<Longrightarrow> x \<in> set (tag_rows lib (lib @ ''.'' @ choice) df)
     \<Longrightarrow> x \<in> set (rows_of choice files)"
  by (force simp: rows_of_def)

lemma cna_files_append:
  "cna_files choice (xs @ ys) data =
     (case cna_files choice xs data of Inl e \<Rightarrow> Inl e | Inr d \<Rightarrow> cna_files choice ys d)"
proof (induction xs arbitrary: data)
  case Nil
  then show ?case by simp
next
  case (Cons x xs)
  obtain fn nd where x: "x = (fn, nd)" by (cases x)
  show ?case using Cons.IH
    by (simp add: x Let_def split: node.splits option.splits)
qed

lemma cna_loop_append:
  "cna_loop choice (xs @ ys) data =
     (case cna_loop choice xs data of Inl e \<Rightarrow> Inl e | Inr d \<Rightarrow> cna_loop choice ys d)"
proof (induction xs arbitrary: data)
  case Nil
  then show ?case by simp
next
  case (Cons x xs)
  obtain item nd where x: "x = (item, nd)" by (cases x)
  show ?case using Cons.IH
    by (simp add: x split: node.splits sum.splits)
qed

lemma cna_files_no_match:
  "\<forall>(n, f)\<in>set es. \<not> endswith n ''.cna.seg'' \<Longrightarrow> cna_files choice es data = Inr data"
  by (induction es) auto

lemma cna_loop_skip:
  assumes "cna_files choice es = cna_files choice es'"
  shows "cna_loop choice (pre @ (d, Dir es) # post) data
           = cna_loop choice (pre @ (d, Dir es') # post) data"
  by (simp add: cna_loop_append assms split: sum.splits)

lemma cna_loop_drop:
  assumes "\<And>data. cna_files choice es data = Inr data"
  shows "cna_loop choice (pre @ (d, Dir es) # post) data = cna_loop choice (pre @ post) data"
  by (simp add: cna_loop_append assms split: sum.splits)

section \<open>The rows of the long-format table\<close>

text \<open>
  Claim C1, as amended. The library of a segmentation file is its name with every
  occurrence of \<^verbatim>\<open>.cna.seg\<close> removed. When the segmentation extractor returns a table,
  that table is a rearrangement of the rows of the segmentation files that count for the
  selector: the regular files with a name ending in \<^verbatim>\<open>.cna.seg\<close> in a directory of the
  results directory whose header has the column of the library and the selector. So every
  row of such a file is in the table, with its library, chr, start, end and value
  unchanged, as often as these files hold it, and exactly once when their rows are all
  different.
\<close>

theorem extract_cna_data_rows:
  assumes "extract_cna_data tree choice = (out, Inr tbl)"
  shows "mset tbl = mset (rows_of choice (seg_files choice tree))
       \<and> (\<forall>item es fn ls df r.
            (item, Dir es) \<in> set tree \<and> (fn, File ls (Some df)) \<in> set es
            \<and> endswith fn ''.cna.seg''
            \<and> replace ''.cna.seg'' [] fn @ ''.'' @ choice \<in> set (columns df)
            \<and> r \<in> set (lines df)
            \<longrightarrow> \<lparr>seg_library = replace ''.cna.seg'' [] fn, seg_chr = r_chr r,
                  seg_start = r_start r, seg_end = r_end r,
                  seg_value = r_cell r (replace ''.cna.seg'' [] fn @ ''.'' @ choice)\<rparr> \<in> set tbl)
       \<and> (distinct (rows_of choice (seg_files choice tree)) \<longrightarrow> distinct tbl)"
proof -
  from assms obtain data where l: "cna_loop choice tree [] = Inr data"
    and tbl: "tbl = sort_key sort_columns data"
    by (auto simp: extract_cna_data_def split: sum.splits)
  from cna_loop_rows [OF l] have data: "data = rows_of choice (seg_files choice tree)" by simp
  have m: "mset tbl = mset (rows_of choice (seg_files choice tree))"
    unfolding tbl data by simp
  have s: "set tbl = set (rows_of choice (seg_files choice tree))"
    unfolding tbl data by simp
  have d: "distinct tbl = distinct (rows_of choice (seg_files choice tree))"
    unfolding tbl data by simp
  have mem: "\<lparr>seg_library = replace ''.cna.seg'' [] fn, seg_chr = r_chr r,
                  seg_start = r_start r, seg_end = r_end r,
                  seg_value = r_cell r (replace ''.cna.seg'' [] fn @ ''.'' @ choice)\<rparr> \<in> set tbl"
    if "(item, Dir es) \<in> set tree" "(fn, File ls (Some df)) \<in> set es"
      "endswith fn ''.cna.seg''"
      "replace ''.cna.seg'' [] fn @ ''.'' @ choice \<in> set (columns df)"
      "r \<in> set (lines df)"
    for item es fn ls df r
    unfolding s
    by (rule rows_of_member [OF seg_files_member [OF that(1,2,3,4)] tag_rows_member [OF that(5)]])
  from m d mem show ?thesis by blast
qed

text \<open>
  The claim as stated fails: with the library taken by stripping the suffix, the file
  \<^verbatim>\<open>a.cna.seg.cna.seg\<close> has the expected column \<^verbatim>\<open>a.cna.seg.logR\<close>, but the extractor
  looks for \<^verbatim>\<open>a.logR\<close> and passes the file over.
\<close>

theorem extract_cna_data_rows_counterexample:
  "endswith ''a.cna.seg.cna.seg'' ''.cna.seg''
   \<and> strip_suffix ''.cna.seg'' ''a.cna.seg.cna.seg'' @ ''.'' @ ''logR''
       \<in> set [''chr'', ''start'', ''end'', ''a.cna.seg.logR'']
   \<and> extract_cna_data
        [(''S1'', Dir [(''a.cna.seg.cna.seg'',
            File [] (Some \<lparr>columns = [''chr'', ''start'', ''end'', ''a.cna.seg.logR''],
                           lines = [\<lparr>r_chr = ''chr1'', r_start = 0, r_end = 1000,
                                     r_cell = (\<lambda>c. 1 / 2 :: real)\<rparr>]\<rparr>))])]
        ''logR''
       = ([], Inr [])"
  by (simp add: extract_cna_data_def endswith_def strip_suffix_def replace_Nil replace_Cons)

theorem extract_cna_data_rows_witness:
  "extract_cna_data example_tree ''logR'' =
     ([], Inr [\<lparr>seg_library = ''S1'', seg_chr = ''chr1'', seg_start = 0, seg_end = 1000,
                 seg_value = - 5 / 100\<rparr>,
               \<lparr>seg_library = ''S2'', seg_chr = ''chr1'', seg_start = 0, seg_end = 1000,
                 seg_value = 3 / 100\<rparr>])
   \<and> rows_of ''logR'' (seg_files ''logR'' example_tree) =
       [\<lparr>seg_library = ''S2'', seg_chr = ''chr1'', seg_start = 0, seg_end = 1000,
          seg_value = 3 / 100\<rparr>,
        \<lparr>seg_library = ''S1'', seg_chr = ''chr1'', seg_start = 0, seg_end = 1000,
          seg_value = - 5 / 100\<rparr>]
   \<and> mset [\<lparr>seg_library = ''S1'', seg_chr = ''chr1'', seg_start = 0, seg_end = 1000,
              seg_value = - 5 / 100 :: real\<rparr>,
            \<lparr>seg_library = ''S2'', seg_chr = ''chr1'', seg_start = 0, seg_end = 1000,
              seg_value = 3 / 100\<rparr>]
       = mset (rows_of ''logR'' (seg_files ''logR'' example_tree))
   \<and> distinct [\<lparr>seg_library = ''S1'', seg_chr = ''chr1'', seg_start = 0, seg_end = 1000,
              seg_value = - 5 / 100 :: real\<rparr>,
            \<lparr>seg_library = ''S2'', seg_chr = ''chr1'', seg_start = 0, seg_end = 1000,
              seg_value = 3 / 100\<rparr>]"
proof -
  have e: "extract_cna_data example_tree ''logR'' =
     ([], Inr [\<lparr>seg_library = ''S1'', seg_chr = ''chr1'', seg_start = 0, seg_end = 1000,
                 seg_value = - 5 / 100\<rparr>,
               \<lparr>seg_library = ''S2'', seg_chr = ''chr1'', seg_start = 0, seg_end = 1000,
                 seg_value = 3 / 100\<rparr>])"
    by (simp add: extract_cna_data_def example_eval replace_Nil replace_Cons tag_rows_def
        sort_columns_def)
  have r: "rows_of ''logR'' (seg_files ''logR'' example_tree) =
       [\<lparr>seg_library = ''S2'', seg_chr = ''chr1'', seg_start = 0, seg_end = 1000,
          seg_value = 3 / 100\<rparr>,
        \<lparr>seg_library = ''S1'', seg_chr = ''chr1'', seg_start = 0, seg_end = 1000,
          seg_value = - 5 / 100\<rparr>]"
    by (simp add: rows_of_def seg_files_def seg_files_of_def List.map_filter_simps example_eval
        replace_Nil replace_Cons tag_rows_def)
  have d: "distinct (rows_of ''logR'' (seg_files ''logR'' example_tree))"
    unfolding r by simp
  from extract_cna_data_rows [OF e] d
  have "mset [\<lparr>seg_library = ''S1'', seg_chr = ''chr1'', seg_start = 0, seg_end = 1000,
              seg_value = - 5 / 100 :: real\<rparr>,
            \<lparr>seg_library = ''S2'', seg_chr = ''chr1'', seg_start = 0, seg_end = 1000,
              seg_value = 3 / 100\<rparr>]
       = mset (rows_of ''logR'' (seg_files ''logR'' example_tree))"
    and "distinct [\<lparr>seg_library = ''S1'', seg_chr = ''chr1'', seg_start = 0, seg_end = 1000,
              seg_value = - 5 / 100 :: real\<rparr>,
            \<lparr>seg_library = ''S2'', seg_chr = ''chr1'', seg_start = 0, seg_end = 1000,
              seg_value = 3 / 100\<rparr>]"
    by blast+
  with e r show ?thesis by blast
qed

section \<open>A directory without the expected file\<close>

text \<open>
  What the two extractions do with a directory of the results directory that has no entry
  named with the expected suffix: both pass it over, and the outcome (the table, or the
  exception) is the one without that directory. The parameter extraction prints the
  diagnostic for it on every run that reaches a table; the segmentation extraction prints
  nothing.
\<close>

lemma no_expected_file:
  "((\<forall>(n, f)\<in>set es. \<not> endswith n ''.params.txt'') \<longrightarrow>
      snd (extract_tf_data pf (pre @ (d, Dir es) # post)) = snd (extract_tf_data pf (pre @ post))
      \<and> (\<forall>tbl. snd (extract_tf_data pf (pre @ (d, Dir es) # post)) = Inr tbl \<longrightarrow>
            (''No params.txt file found for sample: '' @ d)
              \<in> set (fst (extract_tf_data pf (pre @ (d, Dir es) # post)))))
   \<and> ((\<forall>(n, f)\<in>set es. \<not> endswith n ''.cna.seg'') \<longrightarrow>
        extract_cna_data (pre @ (d, Dir es) # post) choice = extract_cna_data (pre @ post) choice
        \<and> fst (extract_cna_data (pre @ (d, Dir es) # post) choice) = [])"
proof (intro conjI impI allI)
  assume "\<forall>(n, f)\<in>set es. \<not> endswith n ''.params.txt''"
  then have n: "first_match ''.params.txt'' es = None" by (simp add: first_match_None)
  from tf_loop_skip(1) [OF n, of pf pre d post "[]" "[]"]
  show "snd (extract_tf_data pf (pre @ (d, Dir es) # post)) = snd (extract_tf_data pf (pre @ post))"
    by (simp add: extract_tf_data_snd)
  fix tbl
  assume "snd (extract_tf_data pf (pre @ (d, Dir es) # post)) = Inr tbl"
  then obtain dl where "snd (tf_loop pf (pre @ (d, Dir es) # post) [] []) = Inr dl"
    by (auto simp: extract_tf_data_snd split: sum.splits)
  from tf_loop_skip(2) [OF n this]
  show "(''No params.txt file found for sample: '' @ d)
          \<in> set (fst (extract_tf_data pf (pre @ (d, Dir es) # post)))"
    by (simp add: extract_tf_data_fst)
next
  assume "\<forall>(n, f)\<in>set es. \<not> endswith n ''.cna.seg''"
  then have "\<And>data. cna_files choice es data = Inr data" by (rule cna_files_no_match)
  from cna_loop_drop [OF this]
  show "extract_cna_data (pre @ (d, Dir es) # post) choice = extract_cna_data (pre @ post) choice"
    by (simp add: extract_cna_data_def)
next
  show "fst (extract_cna_data (pre @ (d, Dir es) # post) choice) = []"
    by (simp add: extract_cna_data_def)
qed

lemma no_expected_file_example:
  "snd (extract_tf_data example_float example_tree)
     = snd (extract_tf_data example_float (take 3 example_tree))
   \<and> ''No params.txt file found for sample: logs''
       \<in> set (fst (extract_tf_data example_float example_tree))
   \<and> extract_cna_data example_tree ''logR'' = extract_cna_data (take 3 example_tree) ''logR''
   \<and> fst (extract_cna_data example_tree ''logR'') = []"
proof -
  let ?es = "[(''run.log'', File [] None)] :: real listing"
  have t: "take 3 example_tree @ (''logs'', Dir ?es) # [] = example_tree"
    by (simp add: example_tree_def)
  have a: "\<forall>(n, f)\<in>set ?es. \<not> endswith n ''.params.txt''"
    by (simp add: endswith_def)
  have b: "\<forall>(n, f)\<in>set ?es. \<not> endswith n ''.cna.seg''"
    by (simp add: endswith_def)
  have e: "snd (extract_tf_data example_float example_tree) =
      Inr [\<lparr>library = ''S1'', tumor_fraction = Float (12 / 100), ploidy = Float (21 / 10),
             gender = Str ''female'', ChrY_coverage_fraction_col = NaN,
             ChrX_median_log_ratio_col = NaN\<rparr>,
           \<lparr>library = ''S2'', tumor_fraction = NaN, ploidy = Float (21 / 10),
             gender = Str ''female'', ChrY_coverage_fraction_col = NaN,
             ChrX_median_log_ratio_col = NaN\<rparr>]"
    by (simp add: extract_tf_data_def example_eval)
  have msg: "''No params.txt file found for sample: '' @ ''logs''
      = ''No params.txt file found for sample: logs''"
    by simp
  note n = no_expected_file [of ?es example_float "take 3 example_tree" "''logs''" "[]" "''logR''",
      unfolded t append_Nil2 msg]
  from n a b e show ?thesis by blast
qed

text \<open>
  Claim C5. For a directory of the results directory without a file of the expected
  suffix, each of the two extractions must print a diagnostic and go on. The segmentation
  extraction prints none: for a sample directory that holds a parameter file only, it
  returns the empty table and prints nothing, where the archive function for segmentation
  files prints its diagnostic for the same directory.
\<close>

theorem segmentation_no_diagnostic:
  "extract_cna_data [(''S1'', Dir [(''S1.params.txt'', File [''Gender: male''] None)])] ''logR''
     = ([], Inr ([] :: real long_row list))
   \<and> create_cna_seg_zip ''results'' [(''S1'', Dir [(''S1.params.txt'', File [''Gender: male''] None)])
         :: string \<times> real node]
       = ([''No cna.seg file found for sample: S1''], [])"
  by (simp add: extract_cna_data_def create_cna_seg_zip_def endswith_def)

section \<open>A segmentation file without the expected column\<close>

text \<open>
  Claim C6. A segmentation file whose header does not have the column named by the
  library, a dot and the selector is passed over silently: the extractor returns what it
  returns without that file (the same table or the same exception), and prints nothing.
\<close>

theorem missing_column_skipped:
  assumes "endswith fn ''.cna.seg''"
    and "replace ''.cna.seg'' [] fn @ ''.'' @ choice \<notin> set (columns df)"
  shows "extract_cna_data (rpre @ (d, Dir (pre @ (fn, File ls (Some df)) # post)) # rpost) choice
           = extract_cna_data (rpre @ (d, Dir (pre @ post)) # rpost) choice
       \<and> fst (extract_cna_data
                (rpre @ (d, Dir (pre @ (fn, File ls (Some df)) # post)) # rpost) choice) = []"
proof -
  have "cna_files choice (pre @ (fn, File ls (Some df)) # post) data
          = cna_files choice (pre @ post) data" for data
    using assms by (simp add: cna_files_append Let_def split: sum.splits)
  then have "cna_files choice (pre @ (fn, File ls (Some df)) # post) = cna_files choice (pre @ post)"
    by (rule ext)
  from cna_loop_skip [OF this] show ?thesis
    by (simp add: extract_cna_data_def)
qed

theorem missing_column_skipped_witness:
  "endswith ''S3.cna.seg'' ''.cna.seg''
   \<and> replace ''.cna.seg'' [] ''S3.cna.seg'' @ ''.'' @ ''logR''
        \<notin> set (columns (example_frame ''other'' 0))
   \<and> extract_cna_data
        (example_tree @ (''S3'', Dir ([] @ (''S3.cna.seg'',
            File [] (Some (example_frame ''other'' 0))) # [])) # []) ''logR''
      = extract_cna_data (example_tree @ (''S3'', Dir ([] @ [])) # []) ''logR''
   \<and> fst (extract_cna_data
        (example_tree @ (''S3'', Dir ([] @ (''S3.cna.seg'',
            File [] (Some (example_frame ''other'' 0))) # [])) # []) ''logR'') = []"
proof -
  have a: "endswith ''S3.cna.seg'' ''.cna.seg''"
    by (simp add: endswith_def)
  have b: "replace ''.cna.seg'' [] ''S3.cna.seg'' @ ''.'' @ ''logR''
        \<notin> set (columns (example_frame ''other'' 0))"
    by (simp add: example_frame_def replace_Nil replace_Cons)
  from missing_column_skipped [OF a b, of example_tree "''S3''" "[]" "[]" "[]" "[]"] a b
  show ?thesis by blast
qed

section \<open>The parameter archive\<close>


lemma first_is_file_match:
  "first_is_file suffix (Dir es) \<Longrightarrow> first_match suffix es = Some (fn, f) \<Longrightarrow> isfile f"
  by (simp add: first_match_find)

lemma first_name_Dir: "first_name suffix (Dir es) = map_option fst (first_match suffix es)"
  by (simp add: first_match_find)

lemma zip_loop_members:
  assumes "\<forall>(d, nd)\<in>set tree. first_is_file suffix nd"
  shows "zip_loop suffix msg rd tree out zipf =
     (out @ map (\<lambda>(d, nd). msg @ d)
              (filter (\<lambda>(d, nd). isdir nd \<and> first_name suffix nd = None) tree),
      zipf @ List.map_filter
              (\<lambda>(d, nd). map_option (\<lambda>n. \<lparr>m_source = join (join rd d) n, m_name = n\<rparr>)
                             (first_name suffix nd)) tree)"
  using assms
proof (induction tree arbitrary: out zipf)
  case Nil
  then show ?case by (simp add: List.map_filter_simps)
next
  case (Cons x tree)
  obtain d nd where x: "x = (d, nd)" by (cases x)
  from Cons.prems have rest: "\<forall>(d, nd)\<in>set tree. first_is_file suffix nd" by simp
  show ?case
  proof (cases nd)
    case (File ls t)
    with x Cons.IH [OF rest] show ?thesis by (simp add: List.map_filter_simps)
  next
    case (Dir es)
    from Cons.prems x Dir have reg: "first_is_file suffix (Dir es)" by simp
    show ?thesis
    proof (cases "first_match suffix es")
      case None
      then have "first_name suffix (Dir es) = None"
        by (simp add: first_name_Dir del: first_name.simps)
      with None x Dir Cons.IH [OF rest] show ?thesis
        by (simp add: List.map_filter_simps del: first_name.simps)
    next
      case (Some m)
      obtain fn f where m: "m = (fn, f)" by (cases m)
      from first_is_file_match [OF reg] Some m have "isfile f" by simp
      then have w: "zip_write (join (join rd d) fn) fn f
          = \<lparr>m_source = join (join rd d) fn, m_name = fn\<rparr>"
        by (cases f) (simp_all add: zip_write_def)
      from Some m have "first_name suffix (Dir es) = Some fn"
        by (simp add: first_name_Dir del: first_name.simps)
      with Some m x Dir w Cons.IH [OF rest] show ?thesis
        by (simp add: List.map_filter_simps del: first_name.simps)
    qed
  qed
qed

lemma map_filter_map: "map g (List.map_filter f xs) = List.map_filter (\<lambda>x. map_option g (f x)) xs"
  by (induction xs) (simp_all add: List.map_filter_simps split: option.splits)

text \<open>
  The members of the parameter archive, for a results directory in which the first entry
  named \<^verbatim>\<open>*.params.txt\<close> of each sample directory is a regular file: one member for each
  directory that holds such an entry, in listing order, stored under the file name, which
  is not the path it is read from. Each directory without such an entry gets the
  diagnostic, and the archive is built all the same.
\<close>

lemma create_params_zip_members:
  assumes "\<forall>(d, nd)\<in>set tree. first_is_file ''.params.txt'' nd"
    and "create_params_zip rd tree = (out, zipf)"
  shows "map m_name zipf = List.map_filter (\<lambda>(d, nd). first_name ''.params.txt'' nd) tree
       \<and> map m_source zipf =
           List.map_filter (\<lambda>(d, nd). map_option (join (join rd d))
                                          (first_name ''.params.txt'' nd)) tree
       \<and> out = map (\<lambda>(d, nd). ''No params.txt file found for sample: '' @ d)
                  (filter (\<lambda>(d, nd). isdir nd \<and> first_name ''.params.txt'' nd = None) tree)"
proof -
  from assms(2) zip_loop_members [OF assms(1), of "''No params.txt file found for sample: ''" rd "[]" "[]"]
  have o: "out = map (\<lambda>(d, nd). ''No params.txt file found for sample: '' @ d)
                  (filter (\<lambda>(d, nd). isdir nd \<and> first_name ''.params.txt'' nd = None) tree)"
    and z: "zipf = List.map_filter
              (\<lambda>(d, nd). map_option (\<lambda>n. \<lparr>m_source = join (join rd d) n, m_name = n\<rparr>)
                             (first_name ''.params.txt'' nd)) tree"
    by (simp_all add: create_params_zip_def)
  have n: "map m_name zipf = List.map_filter (\<lambda>(d, nd). first_name ''.params.txt'' nd) tree"
    unfolding z map_filter_map
    by (rule arg_cong [where f = "\<lambda>f. List.map_filter f tree"])
      (auto simp: fun_eq_iff option.map_comp comp_def option.map_ident)
  have s: "map m_source zipf =
           List.map_filter (\<lambda>(d, nd). map_option (join (join rd d))
                                          (first_name ''.params.txt'' nd)) tree"
    unfolding z map_filter_map
    by (rule arg_cong [where f = "\<lambda>f. List.map_filter f tree"])
      (auto simp: fun_eq_iff option.map_comp comp_def)
  from n s o show ?thesis by blast
qed

lemma create_params_zip_members_example:
  "create_params_zip ''/data/results'' example_tree =
     ([''No params.txt file found for sample: logs''],
      [\<lparr>m_source = ''/data/results/S2/S2.params.txt'', m_name = ''S2.params.txt''\<rparr>,
       \<lparr>m_source = ''/data/results/S1/S1.params.txt'', m_name = ''S1.params.txt''\<rparr>])
   \<and> List.map_filter (\<lambda>(d, nd). first_name ''.params.txt'' nd) example_tree
       = [''S2.params.txt'', ''S1.params.txt'']
   \<and> list_all (\<lambda>(d, nd). first_is_file ''.params.txt'' nd) example_tree"
proof -
  have r: "\<forall>(d, nd)\<in>set example_tree. first_is_file ''.params.txt'' nd"
    by (simp add: example_tree_def endswith_def)
  have e: "create_params_zip ''/data/results'' example_tree =
     ([''No params.txt file found for sample: logs''],
      [\<lparr>m_source = ''/data/results/S2/S2.params.txt'', m_name = ''S2.params.txt''\<rparr>,
       \<lparr>m_source = ''/data/results/S1/S1.params.txt'', m_name = ''S1.params.txt''\<rparr>])"
    by (simp add: create_params_zip_def example_tree_def endswith_def zip_write_def join_def)
  from create_params_zip_members [OF r e] r e show ?thesis
    by (simp add: list_all_iff)
qed


section \<open>The matrix\<close>


lemma pivot_Inr:
  "pivot tbl = Inr m \<longleftrightarrow>
     distinct (map entry_key tbl)
     \<and> m = \<lparr>lib_columns = sort (remdups (map seg_library tbl)),
             m_rows = map (\<lambda>iv. (iv, map (cell_of tbl iv) (sort (remdups (map seg_library tbl)))))
                        (sort (remdups (map interval_of tbl)))\<rparr>"
  by (auto simp: pivot_def Let_def)

lemma pivot_step_Inr: "pivot_step tbl = Inr m \<Longrightarrow> pivot tbl = Inr m"
  by (auto simp: pivot_step_def reset_index_def split: sum.splits if_splits)

lemma length_filter_eq_distinct:
  "distinct xs \<Longrightarrow> x \<in> set xs \<Longrightarrow> length (filter (\<lambda>y. y = x) xs) = 1"
  by (induction xs) (auto simp: filter_empty_conv)

lemma filter_rows:
  "filter (\<lambda>row. fst row = iv) (map (\<lambda>k. (k, f k)) ks) = map (\<lambda>k. (k, f k)) (filter (\<lambda>k. k = iv) ks)"
  by (induction ks) auto

lemma map_of_rows:
  "map_of (map (\<lambda>k. (k, f k)) ks) k = (if k \<in> set ks then Some (f k) else None)"
  by (induction ks) auto

lemma map_of_cells:
  "map_of (zip ks (map f ks)) k = (if k \<in> set ks then Some (f k) else None)"
  by (induction ks) auto

lemma cell_of_present:
  assumes "distinct (map entry_key tbl)" and "r \<in> set tbl"
  shows "cell_of tbl (interval_of r) (seg_library r) = Some (seg_value r)"
proof -
  let ?P = "\<lambda>r'. interval_of r' = interval_of r \<and> seg_library r' = seg_library r"
  from assms(2) have "find ?P tbl \<noteq> None" by (auto simp: find_None_iff)
  then obtain r' where f: "find ?P tbl = Some r'" by auto
  then have "r' \<in> set tbl" and "?P r'"
    by (auto simp: find_Some_iff)
  then have "entry_key r' = entry_key r" by (simp add: entry_key_def)
  with assms \<open>r' \<in> set tbl\<close> have "r' = r"
    by (auto simp: distinct_map dest: inj_onD)
  with f show ?thesis by (simp add: cell_of_def)
qed

lemma cell_of_absent:
  "\<forall>r\<in>set tbl. \<not> (interval_of r = iv \<and> seg_library r = lib) \<Longrightarrow> cell_of tbl iv lib = None"
  by (simp add: cell_of_def find_None_iff)

text \<open>
  Claim C2. For a long-format table whose (library, chr, start, end) keys are all
  different and the matrix the pivot step makes of it: for every row of the table the
  matrix has exactly one row for its (chr, start, end), and there the column of its library
  holds its value; and a cell of the matrix for an interval and a library that no row of
  the table has together is missing.
\<close>

theorem pivot_step_consistent:
  assumes "distinct (map entry_key tbl)" and "pivot_step tbl = Inr m"
  shows "(\<forall>r\<in>set tbl.
            length (filter (\<lambda>row. fst row = interval_of r) (m_rows m)) = 1
            \<and> matrix_cell m (interval_of r) (seg_library r) = Some (Some (seg_value r)))
       \<and> (\<forall>iv\<in>fst ` set (m_rows m). \<forall>lib\<in>set (lib_columns m).
            (\<forall>r\<in>set tbl. \<not> (interval_of r = iv \<and> seg_library r = lib))
            \<longrightarrow> matrix_cell m iv lib = Some None)"
proof -
  let ?libs = "sort (remdups (map seg_library tbl))"
  let ?ivs = "sort (remdups (map interval_of tbl))"
  from pivot_step_Inr [OF assms(2)]
  have cols: "lib_columns m = ?libs"
    and rows: "m_rows m = map (\<lambda>iv. (iv, map (cell_of tbl iv) ?libs)) ?ivs"
    by (simp_all add: pivot_Inr)
  have d: "distinct ?ivs" by simp
  have cell: "matrix_cell m iv lib = Some (cell_of tbl iv lib)"
    if "iv \<in> set ?ivs" "lib \<in> set ?libs" for iv lib
    using that unfolding matrix_cell_def rows cols
    by (simp only: map_of_rows map_of_cells if_True option.case)
  have one: "length (filter (\<lambda>row. fst row = interval_of r) (m_rows m)) = 1
      \<and> matrix_cell m (interval_of r) (seg_library r) = Some (Some (seg_value r))"
    if r: "r \<in> set tbl" for r
  proof
    from r have i: "interval_of r \<in> set ?ivs" by simp
    from length_filter_eq_distinct [OF d i]
    show "length (filter (\<lambda>row. fst row = interval_of r) (m_rows m)) = 1"
      unfolding rows filter_rows by simp
    from r have l: "seg_library r \<in> set ?libs" by simp
    from cell [OF i l] cell_of_present [OF assms(1) r]
    show "matrix_cell m (interval_of r) (seg_library r) = Some (Some (seg_value r))"
      by simp
  qed
  have none: "matrix_cell m iv lib = Some None"
    if "iv \<in> fst ` set (m_rows m)" "lib \<in> set (lib_columns m)"
      "\<forall>r\<in>set tbl. \<not> (interval_of r = iv \<and> seg_library r = lib)" for iv lib
  proof -
    from that(1) have i: "iv \<in> set ?ivs" unfolding rows by (auto simp: image_iff)
    from that(2) have l: "lib \<in> set ?libs" unfolding cols .
    from cell [OF i l] cell_of_absent [OF that(3)] show ?thesis by simp
  qed
  from one none show ?thesis by blast
qed


theorem pivot_step_consistent_witness:
  "distinct (map entry_key example_table)
   \<and> pivot_step example_table = Inr example_matrix
   \<and> length (filter (\<lambda>row. fst row = (''chr1'', 0, 1000)) (m_rows example_matrix)) = 1
   \<and> matrix_cell example_matrix (''chr1'', 0, 1000) ''S2'' = Some (Some (3 / 100))
   \<and> matrix_cell example_matrix (''chr2'', 0, 500) ''S2'' = Some None"
proof -
  let ?r = "\<lparr>seg_library = ''S2'', seg_chr = ''chr1'', seg_start = 0, seg_end = 1000,
       seg_value = 3 / 100 :: real\<rparr>"
  have d: "distinct (map entry_key example_table)"
    by (simp add: example_table_def entry_key_def interval_of_def)
  have p: "pivot_step example_table = Inr example_matrix"
    by (simp add: pivot_step_def pivot_def reset_index_def example_table_def example_matrix_def
        entry_key_def interval_of_def cell_of_def)
  note c = pivot_step_consistent [OF d p]
  have r: "?r \<in> set example_table" by (simp add: example_table_def)
  from c r have "length (filter (\<lambda>row. fst row = interval_of ?r) (m_rows example_matrix)) = 1
      \<and> matrix_cell example_matrix (interval_of ?r) (seg_library ?r) = Some (Some (seg_value ?r))"
    by blast
  then have one: "length (filter (\<lambda>row. fst row = (''chr1'', 0, 1000)) (m_rows example_matrix)) = 1"
    and two: "matrix_cell example_matrix (''chr1'', 0, 1000) ''S2'' = Some (Some (3 / 100))"
    by (simp_all add: interval_of_def)
  have i: "(''chr2'', 0, 500) \<in> fst ` set (m_rows example_matrix)"
    by (simp add: example_matrix_def)
  have l: "''S2'' \<in> set (lib_columns example_matrix)"
    by (simp add: example_matrix_def)
  have n: "\<forall>r\<in>set example_table. \<not> (interval_of r = (''chr2'', 0, 500) \<and> seg_library r = ''S2'')"
    by (simp add: example_table_def interval_of_def)
  from c i l n have three: "matrix_cell example_matrix (''chr2'', 0, 500) ''S2'' = Some None"
    by blast
  from d p one two three show ?thesis by blast
qed

lemma pivot_step_error: "pivot_step tbl = Inl e \<Longrightarrow> e = ValueError"
  by (auto simp: pivot_step_def pivot_def reset_index_def Let_def split: sum.splits if_splits)

lemma pivot_step_duplicates: "\<not> distinct (map entry_key tbl) \<Longrightarrow> pivot_step tbl = Inl ValueError"
  by (simp add: pivot_step_def pivot_def)

lemma write_step_duplicates:
  assumes "\<not> distinct (map entry_key l1) \<or> \<not> distinct (map entry_key l2)"
  shows "raised (write_step a tree out tf l1 l2) = Some ValueError
       \<and> written (write_step a tree out tf l1 l2) = []"
proof (cases "pivot_step l1")
  case (Inl e)
  with pivot_step_error [OF Inl] show ?thesis by (simp add: write_step_def)
next
  case (Inr m)
  then have "distinct (map entry_key l1)"
    by (auto simp: pivot_step_def pivot_def split: if_splits)
  with assms have "pivot_step l2 = Inl ValueError" by (simp add: pivot_step_duplicates)
  with Inr show ?thesis by (simp add: write_step_def)
qed

text \<open>
  Claim C10. \<^verbatim>\<open>pivot\<close> raises \<^verbatim>\<open>ValueError\<close> on a table with two rows of the same
  (chr, start, end, library), and returns a matrix for every table without such rows. In
  an invocation whose three extractions succeed, a repeated key in one of the two renamed
  long-format tables ends the invocation with that exception and with no file written.
\<close>

theorem pivot_duplicate_entries:
  "(\<not> distinct (map entry_key tbl) \<longrightarrow> pivot tbl = Inl ValueError)
   \<and> (distinct (map entry_key tbl) \<longrightarrow> (\<exists>m. pivot tbl = Inr m))
   \<and> (results_dir a \<noteq> [] \<and> output_dir a \<noteq> []
        \<and> extract_tf_data pf tree = (out1, Inr tf)
        \<and> extract_cna_data tree ''logR'' = (out2, Inr logR)
        \<and> extract_cna_data tree ''logR_Copy_Number'' = (out3, Inr logR_Copy_Number)
        \<and> (\<not> distinct (map entry_key (rename_cna (bam_name_pattern a) logR))
             \<or> \<not> distinct (map entry_key (rename_cna (bam_name_pattern a) logR_Copy_Number)))
       \<longrightarrow> raised (main pf a tree) = Some ValueError \<and> written (main pf a tree) = [])"
proof (intro conjI impI)
  show "pivot tbl = Inl ValueError" if "\<not> distinct (map entry_key tbl)"
    using that by (simp add: pivot_def)
  show "\<exists>m. pivot tbl = Inr m" if "distinct (map entry_key tbl)"
    using that by (simp add: pivot_def Let_def)
next
  assume h: "results_dir a \<noteq> [] \<and> output_dir a \<noteq> []
        \<and> extract_tf_data pf tree = (out1, Inr tf)
        \<and> extract_cna_data tree ''logR'' = (out2, Inr logR)
        \<and> extract_cna_data tree ''logR_Copy_Number'' = (out3, Inr logR_Copy_Number)
        \<and> (\<not> distinct (map entry_key (rename_cna (bam_name_pattern a) logR))
             \<or> \<not> distinct (map entry_key (rename_cna (bam_name_pattern a) logR_Copy_Number)))"
  then have m: "main pf a tree =
      write_step a tree (out1 @ out2 @ out3) (rename_tf (bam_name_pattern a) tf)
        (rename_cna (bam_name_pattern a) logR)
        (rename_cna (bam_name_pattern a) logR_Copy_Number)"
    by (simp add: main_def)
  from h have "\<not> distinct (map entry_key (rename_cna (bam_name_pattern a) logR))
             \<or> \<not> distinct (map entry_key (rename_cna (bam_name_pattern a) logR_Copy_Number))"
    by blast
  from write_step_duplicates [OF this, of a tree "out1 @ out2 @ out3"
      "rename_tf (bam_name_pattern a) tf"] m
  show "raised (main pf a tree) = Some ValueError" and "written (main pf a tree) = []"
    by simp_all
qed


theorem pivot_duplicate_entries_witness:
  "raised (main example_float example_args duplicate_tree) = Some ValueError
   \<and> written (main example_float example_args duplicate_tree) = []
   \<and> pivot (rename_cna ''.bam''
        [\<lparr>seg_library = ''a'', seg_chr = ''chr1'', seg_start = 0, seg_end = 1000,
           seg_value = 2 :: real\<rparr>,
         \<lparr>seg_library = ''a.bam'', seg_chr = ''chr1'', seg_start = 0, seg_end = 1000,
           seg_value = 1\<rparr>]) = Inl ValueError
   \<and> (\<exists>m. pivot example_table = Inr m)"
proof -
  let ?l1 = "[\<lparr>seg_library = ''a'', seg_chr = ''chr1'', seg_start = 0, seg_end = 1000,
           seg_value = 2 :: real\<rparr>,
         \<lparr>seg_library = ''a.bam'', seg_chr = ''chr1'', seg_start = 0, seg_end = 1000,
           seg_value = 1\<rparr>]"
  let ?l2 = "[\<lparr>seg_library = ''a'', seg_chr = ''chr1'', seg_start = 0, seg_end = 1000,
           seg_value = 3 :: real\<rparr>,
         \<lparr>seg_library = ''a.bam'', seg_chr = ''chr1'', seg_start = 0, seg_end = 1000,
           seg_value = 2\<rparr>]"
  have a: "results_dir example_args \<noteq> []" "output_dir example_args \<noteq> []"
    by (simp_all add: example_args_def)
  have t: "extract_tf_data example_float duplicate_tree
      = ([''No params.txt file found for sample: a''], Inr [])"
    by (simp add: extract_tf_data_def duplicate_tree_def endswith_def)
  have c1: "extract_cna_data duplicate_tree ''logR'' = ([], Inr ?l1)"
    by (simp add: extract_cna_data_def duplicate_tree_def example_frame_def endswith_def
        replace_Nil replace_Cons tag_rows_def sort_columns_def)
  have c2: "extract_cna_data duplicate_tree ''logR_Copy_Number'' = ([], Inr ?l2)"
    by (simp add: extract_cna_data_def duplicate_tree_def example_frame_def endswith_def
        replace_Nil replace_Cons tag_rows_def sort_columns_def)
  have p: "bam_name_pattern example_args = ''.bam''"
    by (simp add: example_args_def)
  have n: "\<not> distinct (map entry_key (rename_cna ''.bam'' ?l1))"
    by (simp add: rename_cna_def normalize_def replace_Nil replace_Cons entry_key_def
        interval_of_def)
  have d: "distinct (map entry_key example_table)"
    by (simp add: example_table_def entry_key_def interval_of_def)
  note th = pivot_duplicate_entries [of _ example_args example_float duplicate_tree
      "[''No params.txt file found for sample: a'']" "[]" "[]" ?l1 "[]" ?l2]
  from th [of "rename_cna ''.bam'' ?l1"] n a t c1 c2 p
  have one: "pivot (rename_cna ''.bam'' ?l1) = Inl ValueError"
    and two: "raised (main example_float example_args duplicate_tree) = Some ValueError"
    and three: "written (main example_float example_args duplicate_tree) = []"
    by simp_all
  from th [of example_table] d have four: "\<exists>m. pivot example_table = Inr m"
    by blast
  from one two three four show ?thesis by blast
qed

section \<open>The extractions return on well-formed input\<close>

lemma parse_line_isl: "isl (parse_line pf d l) = isl (parse_line pf d' l)"
proof (cases "recognize (strip l)")
  case None
  then show ?thesis by (simp add: parse_line_def)
next
  case (Some lab)
  then show ?thesis
    by (cases lab) (simp_all add: parse_line_def Let_def split: sum.splits)
qed

lemma parse_lines_ok:
  "list_all (line_ok pf) ls \<Longrightarrow> \<exists>d'. parse_lines pf d ls = Inr d'"
proof (induction ls arbitrary: d)
  case Nil
  then show ?case by simp
next
  case (Cons l ls)
  from Cons.prems have "\<not> isl (parse_line pf d l)"
    using parse_line_isl [of pf d l "new_data []"] by (simp add: line_ok_def)
  then obtain d1 where "parse_line pf d l = Inr d1" by (cases "parse_line pf d l") auto
  moreover from Cons obtain d2 where "parse_lines pf d1 ls = Inr d2" by fastforce
  ultimately show ?case by simp
qed

lemma tf_loop_returns:
  "list_all (params_ok pf) tree \<Longrightarrow> \<exists>dl. snd (tf_loop pf tree out acc) = Inr dl"
proof (induction tree arbitrary: out acc)
  case Nil
  then show ?case by simp
next
  case (Cons x tree)
  obtain name nd where x: "x = (name, nd)" by (cases x)
  from Cons.prems have rest: "list_all (params_ok pf) tree" by simp
  show ?case
  proof (cases nd)
    case (File ls t)
    with x Cons.IH [OF rest] show ?thesis by simp
  next
    case (Dir es)
    show ?thesis
    proof (cases "first_match ''.params.txt'' es")
      case None
      with x Dir Cons.IH [OF rest] show ?thesis by simp
    next
      case (Some m)
      obtain fn f where m: "m = (fn, f)" by (cases m)
      from Cons.prems x Dir Some m obtain ls t where f: "f = File ls t"
        by (cases f) auto
      from Cons.prems x Dir Some m f parse_lines_ok [of pf ls "new_data name"]
      obtain d where "parse_lines pf (new_data name) ls = Inr d" by auto
      with x Dir Some m f Cons.IH [OF rest] show ?thesis by simp
    qed
  qed
qed

lemma extract_tf_data_returns:
  "list_all (params_ok pf) tree \<Longrightarrow> \<exists>tbl. snd (extract_tf_data pf tree) = Inr tbl"
  using tf_loop_returns [of pf tree "[]" "[]"]
  by (auto simp: extract_tf_data_snd)

lemma cna_files_returns:
  "list_all (seg_ok choice) es \<Longrightarrow> \<exists>data'. cna_files choice es data = Inr data'"
proof (induction es arbitrary: data)
  case Nil
  then show ?case by simp
next
  case (Cons x es)
  obtain fn nd where x: "x = (fn, nd)" by (cases x)
  from Cons.prems have rest: "list_all (seg_ok choice) es" by simp
  show ?case
  proof (cases nd)
    case (Dir sub)
    with x Cons.IH [OF rest] show ?thesis by simp
  next
    case (File ls t)
    with x Cons.prems Cons.IH [OF rest] show ?thesis
      by (cases t) (simp_all add: Let_def)
  qed
qed

lemma cna_loop_returns:
  "list_all (segs_ok choice) tree \<Longrightarrow> \<exists>data'. cna_loop choice tree data = Inr data'"
proof (induction tree arbitrary: data)
  case Nil
  then show ?case by simp
next
  case (Cons x tree)
  obtain item nd where x: "x = (item, nd)" by (cases x)
  from Cons.prems have rest: "list_all (segs_ok choice) tree" by simp
  show ?case
  proof (cases nd)
    case (File ls t)
    with x Cons.IH [OF rest] show ?thesis by simp
  next
    case (Dir es)
    with Cons.prems x have "list_all (seg_ok choice) es" by simp
    from cna_files_returns [OF this] obtain d1 where "cna_files choice es data = Inr d1"
      by blast
    with x Dir Cons.IH [OF rest] show ?thesis by simp
  qed
qed

lemma extract_cna_data_returns:
  "list_all (segs_ok choice) tree \<Longrightarrow> \<exists>tbl. extract_cna_data tree choice = ([], Inr tbl)"
  using cna_loop_returns [of choice tree "[]"]
  by (auto simp: extract_cna_data_def)

end
